theory Spec2Isabelle
  imports Complex_Main "HOL-Library.Word"
begin

unbundle bit_operations_syntax

section \<open>The lab 5 assembler (src/assembler.ts)\<close>

text \<open>
  A shallow embedding of \<^verbatim>\<open>assemble\<close> and of everything it calls: the line parser, the
  operation grammar, the operation table, the line walk \<^verbatim>\<open>Program._process\<close> and the
  emitter. Conventions of the embedding:

  \<^item> Source text is a \<^typ>\<open>string\<close> of ASCII characters. The string functions of
    JavaScript are modelled on ASCII: white space is TAB, LF, VT, FF, CR and SPACE, and only
    the letters a-z and A-Z have a case.
  \<^item> A JavaScript number is a \<open>jsnum\<close>: a rational (the exact value of a double) or
    one of the two infinities. \<open>Number\<close> rounds the value of a literal to the nearest
    double. \<^verbatim>\<open>NaN\<close> is \<open>None\<close>; it never leaves the two places that test
    \<^verbatim>\<open>isNaN\<close>.
  \<^item> A thrown \<^verbatim>\<open>Error\<close> is a value of type \<open>error\<close>, one constructor for each
    \<^verbatim>\<open>throw\<close> of the source, carrying the values its message interpolates.
  \<^item> A call of the \<^verbatim>\<open>emitWarning\<close> callback is an element of the returned list of
    warnings: the address the message prints and the zero-based line index.
  \<^item> A JavaScript \<^verbatim>\<open>Map\<close> is an association list with distinct keys in insertion order.
  \<^item> Object identity of operations (\<^verbatim>\<open>===\<close>) is modelled by tagging each table entry
    with its origin: one of the instances of \<^verbatim>\<open>defaultOps\<close>, or an object made by
    parsing a \<^verbatim>\<open>@define\<close> line.
\<close>

subsection \<open>Strings\<close>

definition isWhiteSpace :: "char \<Rightarrow> bool" where
  "isWhiteSpace c = (c \<in> set [CHR 0x09, CHR 0x0A, CHR 0x0B, CHR 0x0C, CHR 0x0D, CHR '' ''])"

definition trimStart :: "string \<Rightarrow> string" where
  "trimStart s = dropWhile isWhiteSpace s"

definition trimEnd :: "string \<Rightarrow> string" where
  "trimEnd s = rev (dropWhile isWhiteSpace (rev s))"

definition trim :: "string \<Rightarrow> string" where
  "trim s = trimEnd (trimStart s)"

definition startsWith :: "string \<Rightarrow> string \<Rightarrow> bool" where
  "startsWith s p = (take (length p) s = p)"

text \<open>\<^verbatim>\<open>s.indexOf(p)\<close>; \<open>None\<close> stands for -1.\<close>

fun indexOf :: "string \<Rightarrow> string \<Rightarrow> nat option" where
  "indexOf [] p = (if p = [] then Some 0 else None)"
| "indexOf (c # cs) p =
     (if startsWith (c # cs) p then Some 0 else map_option Suc (indexOf cs p))"

text \<open>\<^verbatim>\<open>s.split(sep)\<close> for a separator of one character.\<close>

fun split :: "char \<Rightarrow> string \<Rightarrow> string list" where
  "split sep [] = [[]]"
| "split sep (c # cs) =
     (if c = sep then [] # split sep cs
      else (case split sep cs of [] \<Rightarrow> [[c]] | x # xs \<Rightarrow> (c # x) # xs))"

text \<open>\<^verbatim>\<open>s.replaceAll(c, r)\<close> for a pattern of one character.\<close>

definition replaceAll :: "char \<Rightarrow> string \<Rightarrow> string \<Rightarrow> string" where
  "replaceAll c r s = concat (map (\<lambda>x. if x = c then r else [x]) s)"

definition includes_char :: "string \<Rightarrow> char \<Rightarrow> bool" where
  "includes_char s c = (c \<in> set s)"

definition toUpperCase :: "string \<Rightarrow> string" where
  "toUpperCase s =
     map (\<lambda>c. case map_of (zip ''abcdefghijklmnopqrstuvwxyz'' ''ABCDEFGHIJKLMNOPQRSTUVWXYZ'') c of
                 None \<Rightarrow> c | Some u \<Rightarrow> u) s"

definition toLowerCase :: "string \<Rightarrow> string" where
  "toLowerCase s =
     map (\<lambda>c. case map_of (zip ''ABCDEFGHIJKLMNOPQRSTUVWXYZ'' ''abcdefghijklmnopqrstuvwxyz'') c of
                 None \<Rightarrow> c | Some l \<Rightarrow> l) s"

definition padStart :: "nat \<Rightarrow> char \<Rightarrow> string \<Rightarrow> string" where
  "padStart n c s = replicate (n - length s) c @ s"

subsection \<open>Numbers\<close>

datatype jsnum = Fin rat | PosInf | NegInf

definition js_neg :: "jsnum \<Rightarrow> jsnum" where
  "js_neg x = (case x of Fin q \<Rightarrow> Fin (- q) | PosInf \<Rightarrow> NegInf | NegInf \<Rightarrow> PosInf)"

text \<open>\<^verbatim>\<open>x > k\<close> for a finite constant \<open>k\<close>.\<close>

definition js_gt :: "jsnum \<Rightarrow> rat \<Rightarrow> bool" where
  "js_gt x k = (case x of Fin q \<Rightarrow> k < q | PosInf \<Rightarrow> True | NegInf \<Rightarrow> False)"

text \<open>\<^verbatim>\<open>ToInt32\<close>: truncate towards zero, then wrap to 32 bits; the infinities give 0.\<close>

definition ToInt32 :: "jsnum \<Rightarrow> 32 word" where
  "ToInt32 x =
     (case x of Fin q \<Rightarrow> word_of_int (if q < 0 then \<lceil>q\<rceil> else \<lfloor>q\<rfloor>) | PosInf \<Rightarrow> 0 | NegInf \<Rightarrow> 0)"

text \<open>
  The double nearest to a rational, ties to the even significand (the rounding of a numeric
  literal's mathematical value): a double has 53 significant bits, down to the unit
  \<open>2 ^ - 1074\<close> of the subnormal numbers, and a value that rounds to \<open>2 ^ 1024\<close> or more
  (a significand of \<open>2 ^ 53\<close> at the unit \<open>2 ^ 971\<close>, or a larger unit) is an infinity.
  Minus zero is not told apart from zero: the program never does.
\<close>

definition pow2 :: "int \<Rightarrow> rat" where
  "pow2 e = (if 0 \<le> e then 2 ^ nat e else 1 / 2 ^ nat (- e))"

function bit_length :: "int \<Rightarrow> int" where
  "bit_length n = (if n \<le> 0 then 0 else 1 + bit_length (n div 2))"
  by pat_completeness auto
termination
  by (relation "measure nat") auto

declare bit_length.simps [simp del]

text \<open>For \<open>a > 0\<close>, the \<open>e\<close> with \<open>2 ^ e \<le> a < 2 ^ (e + 1)\<close>.\<close>

definition binary_exponent :: "rat \<Rightarrow> int" where
  "binary_exponent a =
     (let e0 = bit_length (fst (quotient_of a)) - bit_length (snd (quotient_of a))
      in if pow2 e0 \<le> a then e0 else e0 - 1)"

definition round_half_even :: "rat \<Rightarrow> int" where
  "round_half_even x =
     (let f = \<lfloor>x\<rfloor>; r = x - of_int f
      in if r < 1 / 2 then f else if 1 / 2 < r then f + 1 else if even f then f else f + 1)"

definition to_double :: "rat \<Rightarrow> jsnum" where
  "to_double q =
     (if q = 0 then Fin 0
      else
        let a = \<bar>q\<bar>;
            u = max (binary_exponent a - 52) (- 1074);
            m = round_half_even (a / pow2 u)
        in if 971 < u \<or> (u = 971 \<and> 9007199254740992 \<le> m)
           then (if q < 0 then NegInf else PosInf)
           else Fin (if q < 0 then - (of_int m * pow2 u) else of_int m * pow2 u))"

definition digit_val :: "char \<Rightarrow> int option" where
  "digit_val c =
     map_of (zip ''0123456789abcdef'' [0, 1, 2, 3, 4, 5, 6, 7, 8, 9, 10, 11, 12, 13, 14, 15]
             @ zip ''ABCDEF'' [10, 11, 12, 13, 14, 15]) c"

fun digits_acc :: "int \<Rightarrow> int \<Rightarrow> string \<Rightarrow> int option" where
  "digits_acc b acc [] = Some acc"
| "digits_acc b acc (c # cs) =
     (case digit_val c of
        None \<Rightarrow> None
      | Some d \<Rightarrow> if d < b then digits_acc b (acc * b + d) cs else None)"

text \<open>A non-empty run of digits of base \<open>b\<close>.\<close>

definition parse_digits :: "int \<Rightarrow> string \<Rightarrow> int option" where
  "parse_digits b s = (if s = [] then None else digits_acc b 0 s)"

text \<open>The \<^verbatim>\<open>SignedInteger\<close> of an exponent part.\<close>

definition parse_exponent :: "string \<Rightarrow> int option" where
  "parse_exponent s =
     (if startsWith s ''+'' then parse_digits 10 (drop 1 s)
      else if startsWith s ''-'' then map_option uminus (parse_digits 10 (drop 1 s))
      else parse_digits 10 s)"

definition scale10 :: "int \<Rightarrow> int \<Rightarrow> rat" where
  "scale10 m e = (if 0 \<le> e then of_int m * 10 ^ nat e else of_int m / 10 ^ nat (- e))"

text \<open>
  \<^verbatim>\<open>StrUnsignedDecimalLiteral\<close>: \<^verbatim>\<open>Infinity\<close>, or digits with an optional fraction and
  an optional exponent, at least one digit before or after the point.
\<close>

definition parse_unsigned_decimal :: "string \<Rightarrow> jsnum option" where
  "parse_unsigned_decimal s =
     (if s = ''Infinity'' then Some PosInf
      else
        let isE = (\<lambda>c. c = CHR ''e'' \<or> c = CHR ''E'');
            mant = takeWhile (\<lambda>c. \<not> isE c) s;
            rest = dropWhile (\<lambda>c. \<not> isE c) s;
            ip = takeWhile (\<lambda>c. c \<noteq> CHR ''.'') mant;
            fp = drop 1 (dropWhile (\<lambda>c. c \<noteq> CHR ''.'') mant);
            ex = (if rest = [] then Some 0 else parse_exponent (drop 1 rest))
        in if ip = [] \<and> fp = [] then None
           else (case digits_acc 10 0 (ip @ fp) of
                   None \<Rightarrow> None
                 | Some m \<Rightarrow>
                     (case ex of
                        None \<Rightarrow> None
                      | Some e \<Rightarrow> Some (to_double (scale10 m (e - int (length fp)))))))"

text \<open>
  \<^verbatim>\<open>Number(s)\<close> for a string \<open>s\<close>: white space is trimmed, the empty string is 0,
  the prefixes \<^verbatim>\<open>0b\<close>, \<^verbatim>\<open>0o\<close> and \<^verbatim>\<open>0x\<close> take no sign, a decimal literal takes one;
  the value is rounded to a double. \<open>None\<close> is \<^verbatim>\<open>NaN\<close>.
\<close>

definition Number :: "string \<Rightarrow> jsnum option" where
  "Number s =
     (let t = trim s;
          radix = (\<lambda>b. map_option (\<lambda>n. to_double (of_int n)) (parse_digits b (drop 2 t)))
      in if t = [] then Some (Fin 0)
         else if startsWith t ''0b'' \<or> startsWith t ''0B'' then radix 2
         else if startsWith t ''0o'' \<or> startsWith t ''0O'' then radix 8
         else if startsWith t ''0x'' \<or> startsWith t ''0X'' then radix 16
         else if startsWith t ''+'' then parse_unsigned_decimal (drop 1 t)
         else if startsWith t ''-'' then map_option js_neg (parse_unsigned_decimal (drop 1 t))
         else parse_unsigned_decimal t)"

text \<open>\<^verbatim>\<open>n.toString(16)\<close> for an integer \<open>n\<close>.\<close>

function hex_of_int :: "int \<Rightarrow> string" where
  "hex_of_int n =
     (if n < 16 then [''0123456789abcdef'' ! nat n]
      else hex_of_int (n div 16) @ [''0123456789abcdef'' ! nat (n mod 16)])"
  by pat_completeness auto
termination
  by (relation "measure nat") auto

declare hex_of_int.simps [simp del]

definition toString16 :: "int \<Rightarrow> string" where
  "toString16 n = (if n < 0 then CHR ''-'' # hex_of_int (- n) else hex_of_int n)"

subsection \<open>Errors\<close>

datatype Reg = R0 | R1

datatype error =
    EmptyOperation
  | ExpectedRegInfo string
  | ExpectedDataInfo
  | RegInfoPrefix string
  | RegInfoNoEquals
  | RegInfoValue
  | DataInfoPrefix string
  | DataInfoNoEquals
  | DataInfoValue
  | ExpectedArrow
  | OpcodeNotANumber "string option"
  | InvalidModifier nat string string
  | ExpectedDefineOrNoDefaultOps string
  | LabelWithSpaces string
  | DidNotExpectRegister
  | NumberParseFailed string bool
  | DataTooWide jsnum
  | OpcodeTooWide jsnum
  | LabelDefinedTwice string
  | LabelNeverDefined string
  | UnknownOperation string
  | MustSpecifyRegister
  | CantSpecifyRegister Reg
  | RequiresTargetAddress
  | RequiresBinaryValue
  | LabelsNotGenerated
  | SyntaxErrorAtLine nat string error
  | FailedToEmitLine nat string error

subsection \<open>Instruction\<close>

record Instruction =
  inst_opcode :: jsnum
  inst_r1 :: bool
  inst_data :: jsnum
  inst_comment :: string

text \<open>The constructor: only the two upper bounds are checked, the data first.\<close>

definition new_Instruction :: "jsnum \<Rightarrow> bool \<Rightarrow> jsnum \<Rightarrow> string \<Rightarrow> error + Instruction" where
  "new_Instruction opc r d c =
     (if js_gt d 127 then Inl (DataTooWide d)
      else if js_gt opc 15 then Inl (OpcodeTooWide opc)
      else Inr \<lparr>inst_opcode = opc, inst_r1 = r, inst_data = d, inst_comment = c\<rparr>)"

text \<open>\<^verbatim>\<open>opcode << 9 | (+r1) << 8 | data\<close>, a signed 32-bit integer.\<close>

definition inst_word :: "Instruction \<Rightarrow> int" where
  "inst_word i =
     sint (push_bit 9 (ToInt32 (inst_opcode i))
           OR push_bit 8 (if inst_r1 i then 1 else 0 :: 32 word)
           OR ToInt32 (inst_data i))"

definition Instruction_toString :: "Instruction \<Rightarrow> string" where
  "Instruction_toString i = padStart 4 CHR ''0'' (toString16 (inst_word i)) @ '';'' @ inst_comment i"

subsection \<open>Operations and their grammar\<close>

datatype OperationReg = Reg_never | Reg_optional | Reg_always

datatype OperationData = Data_address | Data_binary | Data_none

definition parse_OperationReg :: "string \<Rightarrow> OperationReg option" where
  "parse_OperationReg t =
     (if t = ''never'' then Some Reg_never
      else if t = ''optional'' then Some Reg_optional
      else if t = ''always'' then Some Reg_always
      else None)"

definition parse_OperationData :: "string \<Rightarrow> OperationData option" where
  "parse_OperationData t =
     (if t = ''address'' then Some Data_address
      else if t = ''binary'' then Some Data_binary
      else if t = ''none'' then Some Data_none
      else None)"

record OperationOutput =
  out_opcode :: jsnum
  out_useRegister :: bool
  out_useData :: bool

record Operation =
  op_op :: string
  op_reg :: OperationReg
  op_data :: OperationData
  op_alwaysBranches :: bool
  op_output :: "OperationOutput list"

text \<open>The modifiers after an opcode, \<open>i\<close> counting them from 0.\<close>

fun apply_modifiers :: "string \<Rightarrow> nat \<Rightarrow> string list \<Rightarrow> OperationOutput \<Rightarrow> error + OperationOutput" where
  "apply_modifiers opcodeStr i [] entry = Inr entry"
| "apply_modifiers opcodeStr i (opt # opts) entry =
     (if opt = ''no-reg'' then apply_modifiers opcodeStr (Suc i) opts (entry\<lparr>out_useRegister := False\<rparr>)
      else if opt = ''no-data'' then apply_modifiers opcodeStr (Suc i) opts (entry\<lparr>out_useData := False\<rparr>)
      else Inl (InvalidModifier (i + 1) opt opcodeStr))"

text \<open>One element of the output list; an element with no token has the opcode \<^verbatim>\<open>undefined\<close>.\<close>

definition parse_output :: "string \<Rightarrow> error + OperationOutput" where
  "parse_output outputStr =
     (case filter (\<lambda>v. v \<noteq> []) (split CHR '' '' outputStr) of
        [] \<Rightarrow> Inl (OpcodeNotANumber None)
      | opcodeStr # options \<Rightarrow>
          (case Number opcodeStr of
             None \<Rightarrow> Inl (OpcodeNotANumber (Some opcodeStr))
           | Some opcode \<Rightarrow>
               apply_modifiers opcodeStr 0 options
                 \<lparr>out_opcode = opcode, out_useRegister = True, out_useData = True\<rparr>))"

fun parse_outputs :: "string list \<Rightarrow> error + OperationOutput list" where
  "parse_outputs [] = Inr []"
| "parse_outputs (outputStr # rest) =
     (case parse_output outputStr of
        Inl e \<Rightarrow> Inl e
      | Inr entry \<Rightarrow>
          (case parse_outputs rest of Inl e \<Rightarrow> Inl e | Inr entries \<Rightarrow> Inr (entry # entries)))"

text \<open>What follows the data info: the flag and the output list.\<close>

definition parse_tail :: "string \<Rightarrow> OperationReg \<Rightarrow> OperationData \<Rightarrow> string \<Rightarrow> error + Operation" where
  "parse_tail name regv datav text0 =
     (let unreachable = startsWith text0 ''unconditional-jump'';
          text = (if unreachable then trimStart (drop (length ''unconditional-jump'') text0) else text0)
      in if text = [] then
           Inr \<lparr>op_op = name, op_reg = regv, op_data = datav,
                op_alwaysBranches = unreachable, op_output = []\<rparr>
         else if \<not> startsWith text ''=>'' then Inl ExpectedArrow
         else (case parse_outputs (split CHR '','' (trimStart (drop 2 text))) of
                 Inl e \<Rightarrow> Inl e
               | Inr outs \<Rightarrow>
                   Inr \<lparr>op_op = name, op_reg = regv, op_data = datav,
                        op_alwaysBranches = unreachable, op_output = outs\<rparr>))"

text \<open>The data info and what follows it.\<close>

definition parse_data_info :: "string \<Rightarrow> OperationReg \<Rightarrow> string \<Rightarrow> error + Operation" where
  "parse_data_info name regv text0 =
     (let (data0, text) =
            (case indexOf text0 '' '' of
               Some dataIx \<Rightarrow> (take dataIx text0, trimStart (drop (dataIx + 1) text0))
             | None \<Rightarrow> (text0, []))
      in if \<not> startsWith data0 ''data'' then Inl (DataInfoPrefix data0)
         else let data1 = trimStart (drop 4 data0)
              in if \<not> startsWith data1 ''='' then Inl DataInfoNoEquals
                 else (case parse_OperationData (trimStart (drop 1 data1)) of
                         None \<Rightarrow> Inl DataInfoValue
                       | Some datav \<Rightarrow> parse_tail name regv datav text))"

definition Operation_parse :: "string \<Rightarrow> error + Operation" where
  "Operation_parse text0 =
     (let text = trim text0
      in if text = [] then Inl EmptyOperation
         else (case indexOf text '' '' of
                 None \<Rightarrow> Inl (ExpectedRegInfo text)
               | Some opIx \<Rightarrow>
                   let name = take opIx text;
                       text1 = trimStart (drop (opIx + 1) text)
                   in (case indexOf text1 '' '' of
                         None \<Rightarrow> Inl ExpectedDataInfo
                       | Some regIx \<Rightarrow>
                           let reg0 = take regIx text1;
                               text2 = trimStart (drop (regIx + 1) text1)
                           in if \<not> startsWith reg0 ''reg'' then Inl (RegInfoPrefix reg0)
                              else let reg1 = trimStart (drop 3 reg0)
                                   in if \<not> startsWith reg1 ''='' then Inl RegInfoNoEquals
                                      else (case parse_OperationReg (trimStart (drop 1 reg1)) of
                                              None \<Rightarrow> Inl RegInfoValue
                                            | Some regv \<Rightarrow> parse_data_info name regv text2))))"

subsection \<open>Lines and items\<close>

text \<open>
  An operation object: the operation and whether the object is one of the instances held by
  \<^verbatim>\<open>defaultOps\<close>. Two objects are the same object (\<^verbatim>\<open>===\<close>) only if both are default
  instances, which are told apart by their contents.
\<close>

datatype origin = DefaultInstance | ParsedInstance

type_synonym OperationObj = "origin \<times> Operation"

record Statement =
  st_op :: string
  st_reg :: "Reg option"
  st_data :: "jsnum option"
  st_jumpLabel :: "string option"

datatype Item =
    ItemStatement Statement
  | ItemLabel string
  | ItemAttribute string "Operation option" bool

datatype ItemType = TStatement | TLabel | TAttribute

record ParseOptions =
  po_supportedOps :: "OperationObj list option"
  po_expectBinaryData :: "(string \<Rightarrow> bool) option"
  po_parseItemTypes :: "(ItemType \<Rightarrow> bool) option"

record Line =
  line_line :: string
  line_uncommentedLine :: string
  line_item :: "Item option"
  line_comment :: "string option"
  line_secretComment :: "string option"

text \<open>The first supported operation of that name decides whether the data is binary.\<close>

fun find_isBinary :: "OperationObj list \<Rightarrow> string \<Rightarrow> bool" where
  "find_isBinary [] name = False"
| "find_isBinary (operation # rest) name =
     (if toUpperCase (op_op (snd operation)) \<noteq> toUpperCase name then find_isBinary rest name
      else op_data (snd operation) = Data_binary)"

definition parseStatement :: "string \<Rightarrow> ParseOptions \<Rightarrow> error + Statement" where
  "parseStatement text0 options =
     (let text = trim text0
      in case indexOf text '' '' of
           None \<Rightarrow> Inr \<lparr>st_op = text, st_reg = None, st_data = None, st_jumpLabel = None\<rparr>
         | Some afterOpIx \<Rightarrow>
             let name = trimEnd (take afterOpIx text);
                 text1 = trimStart (drop afterOpIx text);
                 (regv, text2) =
                   (if startsWith text1 ''R0'' then (Some R0, trimStart (drop 2 text1))
                    else if startsWith text1 ''R1'' then (Some R1, trimStart (drop 2 text1))
                    else (None, text1))
             in if startsWith text2 '':'' then
                  (if includes_char (drop 1 text2) CHR '' '' then Inl (LabelWithSpaces text2)
                   else Inr \<lparr>st_op = name, st_reg = regv, st_data = None,
                             st_jumpLabel = Some (drop 1 text2)\<rparr>)
                else if text2 = [] then
                  Inr \<lparr>st_op = name, st_reg = regv, st_data = None, st_jumpLabel = None\<rparr>
                else
                  let isBinary =
                        (case po_supportedOps options of
                           Some supported \<Rightarrow> find_isBinary supported name
                         | None \<Rightarrow>
                             (case po_expectBinaryData options of
                                Some expect \<Rightarrow> expect name
                              | None \<Rightarrow> False));
                      joinedText = replaceAll CHR '' '' [] text2
                  in (case Number ((if isBinary then ''0b'' else []) @ joinedText) of
                        None \<Rightarrow>
                          if startsWith (toLowerCase text2) ''r'' then Inl DidNotExpectRegister
                          else Inl (NumberParseFailed text2 isBinary)
                      | Some d \<Rightarrow>
                          Inr \<lparr>st_op = name, st_reg = regv, st_data = Some d, st_jumpLabel = None\<rparr>))"

definition canParse :: "ParseOptions \<Rightarrow> ItemType \<Rightarrow> bool" where
  "canParse options key = (case po_parseItemTypes options of None \<Rightarrow> True | Some types \<Rightarrow> types key)"

text \<open>The classification of the trimmed, uncommented text.\<close>

definition parse_item :: "string \<Rightarrow> ParseOptions \<Rightarrow> error + Item option" where
  "parse_item text options =
     (if startsWith text ''@'' then
        (if canParse options TAttribute then
           (if startsWith text ''@define'' then
              (case Operation_parse (drop (length ''@define'') text) of
                 Inl e \<Rightarrow> Inl e
               | Inr operation \<Rightarrow> Inr (Some (ItemAttribute (drop 1 text) (Some operation) False)))
            else if toLowerCase text = ''@no_default_ops'' then
              Inr (Some (ItemAttribute (drop 1 text) None True))
            else Inl (ExpectedDefineOrNoDefaultOps text))
         else Inr None)
      else if startsWith text '':'' then
        (if canParse options TLabel then
           (if includes_char (drop 1 text) CHR '' '' then Inl (LabelWithSpaces text)
            else Inr (Some (ItemLabel (drop 1 text))))
         else Inr None)
      else if text \<noteq> [] \<and> canParse options TStatement then
        (case parseStatement text options of
           Inl e \<Rightarrow> Inl e
         | Inr s \<Rightarrow> Inr (Some (ItemStatement s)))
      else Inr None)"

definition Line_parse :: "string \<Rightarrow> ParseOptions \<Rightarrow> error + Line" where
  "Line_parse line options =
     (let (secretComment, text0) =
            (case indexOf line ''#'' of
               Some secretIx \<Rightarrow> (Some (drop (secretIx + 1) line), take secretIx line)
             | None \<Rightarrow> (None, line));
          (comment, text1) =
            (case indexOf text0 ''//'' of
               Some commentIx \<Rightarrow> (Some (drop (commentIx + 2) text0), take commentIx text0)
             | None \<Rightarrow> (None, text0));
          text = trim text1
      in case parse_item text options of
           Inl e \<Rightarrow> Inl e
         | Inr item \<Rightarrow>
             Inr \<lparr>line_line = line, line_uncommentedLine = text, line_item = item,
                  line_comment = comment, line_secretComment = secretComment\<rparr>)"

text \<open>\<^verbatim>\<open>Program.parse\<close>: the lines in order, the first failure wrapped with its line number.\<close>

fun parse_lines :: "ParseOptions \<Rightarrow> nat \<Rightarrow> string list \<Rightarrow> error + Line list" where
  "parse_lines options ix [] = Inr []"
| "parse_lines options ix (line # rest) =
     (case Line_parse line options of
        Inl e \<Rightarrow> Inl (SyntaxErrorAtLine (ix + 1) line e)
      | Inr l \<Rightarrow>
          (case parse_lines options (Suc ix) rest of Inl e \<Rightarrow> Inl e | Inr ls \<Rightarrow> Inr (l # ls)))"

definition Program_parse :: "string \<Rightarrow> ParseOptions \<Rightarrow> error + Line list" where
  "Program_parse content options =
     parse_lines options 0 (split CHR 0x0A (replaceAll CHR 0x0D [] content))"

subsection \<open>The default operations\<close>

definition defaultOps_text :: string where
  "defaultOps_text =
     concat (map (\<lambda>l. CHR 0x0A # l)
       [''CALL reg=never data=address => 0'',
        ''RET reg=never data=none unconditional-jump => 1'',
        ''BZ reg=always data=address => 2'',
        ''B reg=never data=address unconditional-jump => 3'',
        ''ADD reg=always data=binary => 4'',
        ''SUB reg=always data=binary => 5'',
        ''LD reg=always data=binary => 6'',
        ''IN reg=always data=none => 7'',
        ''OUT reg=always data=none => 8'',
        ''AND reg=always data=binary => 9'',
        ''WRITE reg=optional data=binary => 6, 8 no-data'']) @ [CHR 0x0A]"

fun parse_operations :: "string list \<Rightarrow> error + Operation list" where
  "parse_operations [] = Inr []"
| "parse_operations (line # rest) =
     (case Operation_parse line of
        Inl e \<Rightarrow> Inl e
      | Inr operation \<Rightarrow>
          (case parse_operations rest of Inl e \<Rightarrow> Inl e | Inr ops \<Rightarrow> Inr (operation # ops)))"

text \<open>
  The table is parsed when the module is loaded; a failure there would stop the module
  from loading, and \<open>defaultOps_parsed\<close> below shows that there is none.
\<close>

definition defaultOps :: "Operation list" where
  "defaultOps =
     (case parse_operations (filter (\<lambda>l. l \<noteq> []) (split CHR 0x0A defaultOps_text)) of
        Inl e \<Rightarrow> []
      | Inr ops \<Rightarrow> ops)"

subsection \<open>Maps in insertion order\<close>

definition Map_get :: "('k \<times> 'v) list \<Rightarrow> 'k \<Rightarrow> 'v option" where
  "Map_get m k = map_of m k"

definition Map_has :: "('k \<times> 'v) list \<Rightarrow> 'k \<Rightarrow> bool" where
  "Map_has m k = (map_of m k \<noteq> None)"

text \<open>\<^verbatim>\<open>m.set(k, v)\<close>: an existing key keeps its place, a new key goes last.\<close>

fun Map_set :: "('k \<times> 'v) list \<Rightarrow> 'k \<Rightarrow> 'v \<Rightarrow> ('k \<times> 'v) list" where
  "Map_set [] k v = [(k, v)]"
| "Map_set (p # m) k v = (if fst p = k then (k, v) # m else p # Map_set m k v)"

definition Map_delete :: "('k \<times> 'v) list \<Rightarrow> 'k \<Rightarrow> ('k \<times> 'v) list" where
  "Map_delete m k = filter (\<lambda>p. fst p \<noteq> k) m"

definition new_Map :: "('k \<times> 'v) list \<Rightarrow> ('k \<times> 'v) list" where
  "new_Map entries = foldl (\<lambda>m p. Map_set m (fst p) (snd p)) [] entries"

subsection \<open>The program and its line walk\<close>

record Program =
  prog_lines :: "Line list"
  prog_labels :: "(string \<times> nat) list option"
  prog_ops :: "(string \<times> OperationObj) list"

definition setOps :: "OperationObj list \<Rightarrow> (string \<times> OperationObj) list" where
  "setOps ops = new_Map (map (\<lambda>obj. (toUpperCase (op_op (snd obj)), obj)) ops)"

record ProcessOptions =
  resolveLabels :: bool
  validateInstructionArgs :: bool

datatype Warning = BranchingToHardCodedAddress jsnum nat

text \<open>
  The state of one walk: the two tables of the program and the two locals of the loop.
\<close>

record Walk =
  w_labels :: "(string \<times> nat) list option"
  w_ops :: "(string \<times> OperationObj) list"
  w_instructions :: "Instruction list"
  w_unreachable :: bool

text \<open>\<^verbatim>\<open>if (line.item.jumpLabel)\<close> holds for a label that is present and not empty.\<close>

definition has_jumpLabel :: "Statement \<Rightarrow> bool" where
  "has_jumpLabel s = (case st_jumpLabel s of None \<Rightarrow> False | Some j \<Rightarrow> j \<noteq> [])"

definition resolve_jumpLabel ::
    "ProcessOptions \<Rightarrow> (string \<times> nat) list option \<Rightarrow> Statement \<Rightarrow> error + Statement" where
  "resolve_jumpLabel options labels s =
     (case st_jumpLabel s of
        None \<Rightarrow> Inr s
      | Some j \<Rightarrow>
          if j = [] then Inr s
          else (case (case labels of None \<Rightarrow> None | Some m \<Rightarrow> Map_get m j) of
                  Some address \<Rightarrow> Inr (s\<lparr>st_data := Some (Fin (of_nat address))\<rparr>)
                | None \<Rightarrow>
                    if validateInstructionArgs options then Inl (LabelNeverDefined j)
                    else Inr s))"

text \<open>The two switches of the validation: the calls of the warning sink and the error, if any.\<close>

definition validate_reg :: "Operation \<Rightarrow> Statement \<Rightarrow> error option" where
  "validate_reg operation s =
     (case op_reg operation of
        Reg_always \<Rightarrow> (case st_reg s of None \<Rightarrow> Some MustSpecifyRegister | Some r \<Rightarrow> None)
      | Reg_never \<Rightarrow> (case st_reg s of None \<Rightarrow> None | Some r \<Rightarrow> Some (CantSpecifyRegister r))
      | Reg_optional \<Rightarrow> None)"

definition validate_data :: "Operation \<Rightarrow> Statement \<Rightarrow> bool \<Rightarrow> nat \<Rightarrow> Warning list \<times> error option" where
  "validate_data operation s unreachable i =
     (case op_data operation of
        Data_address \<Rightarrow>
          (case st_data s of
             None \<Rightarrow> ([], Some RequiresTargetAddress)
           | Some d \<Rightarrow>
               (if \<not> has_jumpLabel s \<and> \<not> unreachable then [BranchingToHardCodedAddress d i] else [],
                None))
      | Data_binary \<Rightarrow>
          (case st_data s of None \<Rightarrow> ([], Some RequiresBinaryValue) | Some d \<Rightarrow> ([], None))
      | Data_none \<Rightarrow> ([], None))"

definition validate_args :: "Operation \<Rightarrow> Statement \<Rightarrow> bool \<Rightarrow> nat \<Rightarrow> Warning list \<times> error option" where
  "validate_args operation s unreachable i =
     (case validate_reg operation s of
        Some e \<Rightarrow> ([], Some e)
      | None \<Rightarrow> validate_data operation s unreachable i)"

definition labelComment :: "(string \<times> nat) list option \<Rightarrow> nat \<Rightarrow> string" where
  "labelComment labels n =
     (case labels of
        None \<Rightarrow> []
      | Some m \<Rightarrow>
          concat (map (\<lambda>p. if n = snd p then '':'' @ replaceAll CHR '' '' ''_'' (fst p) @ '' '' else []) m))"

definition statement_comment :: "Line \<Rightarrow> (string \<times> nat) list option \<Rightarrow> nat \<Rightarrow> string" where
  "statement_comment line labels n =
     (case line_comment line of None \<Rightarrow> [] | Some c \<Rightarrow> c)
     @ (case line_comment line of None \<Rightarrow> [] | Some c \<Rightarrow> if c = [] then [] else '' '')
     @ ''(Assembly: '' @ labelComment labels n @ line_uncommentedLine line @ '')''"

text \<open>The register bit and the data field that an output takes from a statement.\<close>

definition output_register :: "OperationOutput \<Rightarrow> Statement \<Rightarrow> bool" where
  "output_register out s = (if out_useRegister out then st_reg s = Some R1 else False)"

definition output_data :: "OperationOutput \<Rightarrow> Statement \<Rightarrow> jsnum" where
  "output_data out s =
     (if out_useData out then (case st_data s of None \<Rightarrow> Fin 0 | Some d \<Rightarrow> d) else Fin 0)"

text \<open>One instruction for each output of the operation, the first failure ending the loop.\<close>

fun emit_outputs :: "OperationOutput list \<Rightarrow> Statement \<Rightarrow> string \<Rightarrow> error + Instruction list" where
  "emit_outputs [] s c = Inr []"
| "emit_outputs (out # outs) s c =
     (case new_Instruction (out_opcode out) (output_register out s) (output_data out s) c of
        Inl e \<Rightarrow> Inl e
      | Inr inst \<Rightarrow>
          (case emit_outputs outs s c of Inl e \<Rightarrow> Inl e | Inr insts \<Rightarrow> Inr (inst # insts)))"

text \<open>The encoding of a validated statement: its instructions join the list.\<close>

definition encode_statement :: "Line \<Rightarrow> Statement \<Rightarrow> Operation \<Rightarrow> Walk \<Rightarrow> error + Line \<times> Walk" where
  "encode_statement line s operation w =
     (case emit_outputs (op_output operation) s
             (statement_comment line (w_labels w) (length (w_instructions w))) of
        Inl e \<Rightarrow> Inl e
      | Inr insts \<Rightarrow>
          Inr (line\<lparr>line_item := Some (ItemStatement s)\<rparr>,
               w\<lparr>w_instructions := w_instructions w @ insts,
                 w_unreachable := (op_alwaysBranches operation \<or> w_unreachable w)\<rparr>))"

definition process_statement ::
    "ProcessOptions \<Rightarrow> nat \<Rightarrow> Line \<Rightarrow> Statement \<Rightarrow> Walk \<Rightarrow> Warning list \<times> (error + Line \<times> Walk)" where
  "process_statement options i line s0 w =
     (case resolve_jumpLabel options (w_labels w) s0 of
        Inl e \<Rightarrow> ([], Inl e)
      | Inr s \<Rightarrow>
          (case Map_get (w_ops w) (toUpperCase (st_op s)) of
             None \<Rightarrow> ([], Inl (UnknownOperation (st_op s)))
           | Some obj \<Rightarrow>
               let operation = snd obj;
                   (warnings, failure) =
                     (if validateInstructionArgs options
                      then validate_args operation s (w_unreachable w) i
                      else ([], None))
               in (case failure of
                     Some e \<Rightarrow> (warnings, Inl e)
                   | None \<Rightarrow> (warnings, encode_statement line s operation w))))"

text \<open>\<^verbatim>\<open>@no_default_ops\<close>: a default goes if the table still holds that very instance.\<close>

definition remove_default ::
    "(string \<times> OperationObj) list \<Rightarrow> Operation \<Rightarrow> (string \<times> OperationObj) list" where
  "remove_default m d =
     (if Map_get m (toUpperCase (op_op d)) = Some (DefaultInstance, d)
      then Map_delete m (toUpperCase (op_op d)) else m)"

definition remove_defaults :: "(string \<times> OperationObj) list \<Rightarrow> (string \<times> OperationObj) list" where
  "remove_defaults ops = foldl remove_default ops defaultOps"

text \<open>The body of the loop for line \<open>i\<close>: the line as the body leaves it, and the new state.\<close>

definition process_line ::
    "ProcessOptions \<Rightarrow> nat \<Rightarrow> Line \<Rightarrow> Walk \<Rightarrow> Warning list \<times> (error + Line \<times> Walk)" where
  "process_line options i line w =
     (case line_item line of
        None \<Rightarrow> ([], Inr (line, w))
      | Some (ItemLabel name) \<Rightarrow>
          if \<not> resolveLabels options then ([], Inr (line, w\<lparr>w_unreachable := False\<rparr>))
          else (case w_labels w of
                  None \<Rightarrow> ([], Inr (line, w\<lparr>w_unreachable := False\<rparr>))
                | Some m \<Rightarrow>
                    if Map_has m name then ([], Inl (LabelDefinedTwice name))
                    else ([], Inr (line,
                           w\<lparr>w_unreachable := False,
                             w_labels := Some (Map_set m name (length (w_instructions w)))\<rparr>)))
      | Some (ItemStatement s) \<Rightarrow> process_statement options i line s w
      | Some (ItemAttribute content operation no_default_ops) \<Rightarrow>
          let ops1 = (if no_default_ops then remove_defaults (w_ops w) else w_ops w);
              ops2 = (case operation of
                        None \<Rightarrow> ops1
                      | Some d \<Rightarrow> Map_set ops1 (op_op d) (ParsedInstance, d))
          in ([], Inr (line, w\<lparr>w_ops := ops2\<rparr>)))"

text \<open>
  The loop from line \<open>i\<close> on: \<open>process_lines\<close> runs the body on the first line and
  \<open>process_rest\<close> goes on from its outcome. A failure is wrapped with the 1-based line number
  and ends the loop; the warnings of the lines before it have been emitted.
\<close>

fun prepend_line ::
    "Warning list \<Rightarrow> Line \<Rightarrow> Warning list \<times> (error + Line list \<times> Walk)
       \<Rightarrow> Warning list \<times> (error + Line list \<times> Walk)" where
  "prepend_line warnings line' (warnings', Inl e) = (warnings @ warnings', Inl e)"
| "prepend_line warnings line' (warnings', Inr (rest', w'')) =
     (warnings @ warnings', Inr (line' # rest', w''))"

fun process_lines ::
    "ProcessOptions \<Rightarrow> nat \<Rightarrow> Line list \<Rightarrow> Walk \<Rightarrow> Warning list \<times> (error + Line list \<times> Walk)"
  and process_rest ::
    "ProcessOptions \<Rightarrow> nat \<Rightarrow> Line \<Rightarrow> Line list \<Rightarrow> Warning list \<times> (error + Line \<times> Walk)
       \<Rightarrow> Warning list \<times> (error + Line list \<times> Walk)" where
  "process_lines options i [] w = ([], Inr ([], w))"
| "process_lines options i (line # rest) w =
     process_rest options i line rest (process_line options i line w)"
| "process_rest options i line rest (warnings, Inl e) =
     (warnings, Inl (FailedToEmitLine (i + 1) (line_line line) e))"
| "process_rest options i line rest (warnings, Inr (line', w')) =
     prepend_line warnings line' (process_lines options (Suc i) rest w')"

text \<open>\<^verbatim>\<open>Program._process\<close>: the instructions, and the program as the walk leaves it.\<close>

definition process :: "Program \<Rightarrow> ProcessOptions \<Rightarrow> Warning list \<times> (error + Instruction list \<times> Program)" where
  "process prog options =
     (case process_lines options 0 (prog_lines prog)
             \<lparr>w_labels = prog_labels prog, w_ops = prog_ops prog,
              w_instructions = [], w_unreachable = False\<rparr> of
        (warnings, Inl e) \<Rightarrow> (warnings, Inl e)
      | (warnings, Inr (lines', w)) \<Rightarrow>
          (warnings,
           Inr (w_instructions w,
                \<lparr>prog_lines = lines', prog_labels = w_labels w, prog_ops = w_ops w\<rparr>)))"

definition loadDefinedOps :: "Program \<Rightarrow> error + Program" where
  "loadDefinedOps prog =
     (case snd (process prog \<lparr>resolveLabels = False, validateInstructionArgs = False\<rparr>) of
        Inl e \<Rightarrow> Inl e
      | Inr (insts, prog') \<Rightarrow> Inr prog')"

definition Program_resolveLabels :: "Program \<Rightarrow> error + Program" where
  "Program_resolveLabels prog =
     (if prog_labels prog \<noteq> None then Inr prog
      else (case snd (process (prog\<lparr>prog_labels := Some []\<rparr>)
                        \<lparr>resolveLabels = True, validateInstructionArgs = False\<rparr>) of
              Inl e \<Rightarrow> Inl e
            | Inr (insts, prog') \<Rightarrow> Inr prog'))"

subsection \<open>The emitter\<close>

text \<open>One line for each instruction, then filler lines up to 64.\<close>

definition emit_text :: "Instruction list \<Rightarrow> string" where
  "emit_text insts =
     concat (map (\<lambda>inst. Instruction_toString inst @ [CHR 0x0A]) insts)
     @ concat (replicate (64 - length insts) (''0000;'' @ [CHR 0x0A]))"

text \<open>The walk of \<^verbatim>\<open>Program.emit\<close>, before the instructions are written out.\<close>

definition emit_instructions :: "Program \<Rightarrow> Warning list \<times> (error + Instruction list)" where
  "emit_instructions prog =
     (if prog_labels prog = None then ([], Inl LabelsNotGenerated)
      else (case process prog \<lparr>resolveLabels = False, validateInstructionArgs = True\<rparr> of
              (warnings, Inl e) \<Rightarrow> (warnings, Inl e)
            | (warnings, Inr (insts, prog')) \<Rightarrow> (warnings, Inr insts)))"

definition Program_emit :: "Program \<Rightarrow> Warning list \<times> (error + string)" where
  "Program_emit prog =
     (case emit_instructions prog of
        (warnings, Inl e) \<Rightarrow> (warnings, Inl e)
      | (warnings, Inr insts) \<Rightarrow> (warnings, Inr (emit_text insts)))"

subsection \<open>assemble\<close>

text \<open>The program that \<^verbatim>\<open>assemble\<close> hands to \<^verbatim>\<open>emit\<close>: both parses and the first two walks.\<close>

definition assemble_program :: "string \<Rightarrow> error + Program" where
  "assemble_program content =
     (case Program_parse content
             \<lparr>po_supportedOps = None, po_expectBinaryData = None,
              po_parseItemTypes = Some (\<lambda>t. t = TAttribute)\<rparr> of
        Inl e \<Rightarrow> Inl e
      | Inr attribute_lines \<Rightarrow>
          (case loadDefinedOps
                  \<lparr>prog_lines = attribute_lines, prog_labels = None,
                   prog_ops = setOps (map (Pair DefaultInstance) defaultOps)\<rparr> of
             Inl e \<Rightarrow> Inl e
           | Inr attributes \<Rightarrow>
               let supportedOps = map snd (prog_ops attributes)
               in (case Program_parse content
                          \<lparr>po_supportedOps = Some supportedOps, po_expectBinaryData = None,
                           po_parseItemTypes = None\<rparr> of
                     Inl e \<Rightarrow> Inl e
                   | Inr lines \<Rightarrow>
                       Program_resolveLabels
                         \<lparr>prog_lines = lines, prog_labels = None,
                          prog_ops = setOps supportedOps\<rparr>)))"

definition assemble :: "string \<Rightarrow> Warning list \<times> (error + string)" where
  "assemble content =
     (case assemble_program content of
        Inl e \<Rightarrow> ([], Inl e)
      | Inr prog \<Rightarrow> Program_emit prog)"

text \<open>
  The instructions behind the text that \<^verbatim>\<open>assemble\<close> returns: \<open>assemble\<close> is
  \<open>assemble_instructions\<close> followed by \<open>emit_text\<close> (lemma \<open>assemble_via_instructions\<close>).
\<close>

definition assemble_instructions :: "string \<Rightarrow> Warning list \<times> (error + Instruction list)" where
  "assemble_instructions content =
     (case assemble_program content of
        Inl e \<Rightarrow> ([], Inl e)
      | Inr prog \<Rightarrow> emit_instructions prog)"

subsection \<open>Vocabulary of the properties\<close>

text \<open>Source files are written as lists of lines, joined by LF.\<close>

fun join_lines :: "string list \<Rightarrow> string" where
  "join_lines [] = []"
| "join_lines [l] = l"
| "join_lines (l # ls) = l @ CHR 0x0A # join_lines ls"

text \<open>A text of lines, each ended by LF.\<close>

definition unlines :: "string list \<Rightarrow> string" where
  "unlines ls = concat (map (\<lambda>l. l @ [CHR 0x0A]) ls)"

text \<open>The lines of a text: the pieces between LFs, without the empty piece after a final LF.\<close>

definition text_lines :: "string \<Rightarrow> string list" where
  "text_lines t = (let ps = split CHR 0x0A t in if last ps = [] then butlast ps else ps)"

text \<open>A string with no line terminator: neither LF nor CR.\<close>

definition one_line :: "string \<Rightarrow> bool" where
  "one_line s = (CHR 0x0A \<notin> set s \<and> CHR 0x0D \<notin> set s)"

text \<open>
  A line matches \<^verbatim>\<open>^[0-9a-f]{4};.*$\<close>: four lowercase hex digits, a semicolon, and no line
  terminator after it.
\<close>

definition line_ok :: "string \<Rightarrow> bool" where
  "line_ok l =
     (5 \<le> length l \<and> list_all (\<lambda>c. c \<in> set ''0123456789abcdef'') (take 4 l)
      \<and> l ! 4 = CHR '';'' \<and> one_line (drop 5 l))"

definition filler :: string where
  "filler = ''0000;''"

subsection \<open>Source files of the examples\<close>

definition countdown_source :: string where
  "countdown_source =
     join_lines ['':main'', ''LD R0 000 1010'', ''SUB R0 000 0001'', ''BZ R0 :Finished'',
                 ''B :main'', [], '':Finished'']"

definition call_only_lines :: "string list" where
  "call_only_lines =
     [''@no_default_ops'', ''@define CALL reg=never data=address => 0'', ''CALL :x'', '':x'']"

text \<open>The default operation names other than CALL.\<close>

definition other_default_names :: "string list" where
  "other_default_names = filter (\<lambda>n. n \<noteq> ''CALL'') (map op_op defaultOps)"


text \<open>The options of the two walks over the whole program.\<close>

definition label_pass :: ProcessOptions where
  "label_pass = \<lparr>resolveLabels = True, validateInstructionArgs = False\<rparr>"

definition encoding_pass :: ProcessOptions where
  "encoding_pass = \<lparr>resolveLabels = False, validateInstructionArgs = True\<rparr>"

text \<open>The table of the default operations, and a walk that starts with it.\<close>

definition default_table :: "(string \<times> OperationObj) list" where
  "default_table = setOps (map (Pair DefaultInstance) defaultOps)"

definition start_walk :: "(string \<times> nat) list \<Rightarrow> Walk" where
  "start_walk labels =
     \<lparr>w_labels = Some labels, w_ops = default_table, w_instructions = [], w_unreachable = False\<rparr>"

text \<open>A line that holds the given statement and no comment.\<close>

definition statement_line :: "string \<Rightarrow> Statement \<Rightarrow> Line" where
  "statement_line text s =
     \<lparr>line_line = text, line_uncommentedLine = text, line_item = Some (ItemStatement s),
      line_comment = None, line_secretComment = None\<rparr>"

definition is_label_line :: "Line \<Rightarrow> bool" where
  "is_label_line line = (case line_item line of Some (ItemLabel name) \<Rightarrow> True | _ \<Rightarrow> False)"


definition branch_to :: "rat \<Rightarrow> Statement" where
  "branch_to a = \<lparr>st_op = ''B'', st_reg = None, st_data = Some (Fin a), st_jumpLabel = None\<rparr>"

subsection \<open>Invariants of the walk\<close>

text \<open>The strings of a line that can reach a comment have no line terminator.\<close>

definition line_clean :: "Line \<Rightarrow> bool" where
  "line_clean line =
     (one_line (line_uncommentedLine line)
      \<and> (case line_comment line of None \<Rightarrow> True | Some c \<Rightarrow> one_line c)
      \<and> (case line_item line of Some (ItemLabel name) \<Rightarrow> one_line name | _ \<Rightarrow> True))"

text \<open>An instruction as the constructor lets it through, with a comment of one line.\<close>

definition inst_ok :: "Instruction \<Rightarrow> bool" where
  "inst_ok inst =
     (\<not> js_gt (inst_data inst) 127 \<and> \<not> js_gt (inst_opcode inst) 15 \<and> one_line (inst_comment inst))"

definition walk_clean :: "Walk \<Rightarrow> bool" where
  "walk_clean w =
     ((case w_labels w of None \<Rightarrow> True | Some m \<Rightarrow> list_all (\<lambda>p. one_line (fst p)) m)
      \<and> list_all inst_ok (w_instructions w))"

text \<open>Neither the opcode nor the data of the instruction is negative.\<close>

definition js_nonneg :: "jsnum \<Rightarrow> bool" where
  "js_nonneg x = (case x of Fin q \<Rightarrow> 0 \<le> q | PosInf \<Rightarrow> True | NegInf \<Rightarrow> False)"

definition inst_nonneg :: "Instruction \<Rightarrow> bool" where
  "inst_nonneg inst = (js_nonneg (inst_opcode inst) \<and> js_nonneg (inst_data inst))"

text \<open>
  A program of one statement whose operation is defined with 65 outputs, and the same
  program followed by a branch that lacks its register.
\<close>

definition burst_lines :: "string list" where
  "burst_lines =
     [''@define BURST reg=never data=none => 0'' @ concat (replicate 64 '',0''), ''BURST'']"

text \<open>The causes of a failure of the encoding walk: each is about one statement.\<close>

definition statement_error :: "error \<Rightarrow> bool" where
  "statement_error e =
     (case e of
        LabelNeverDefined j \<Rightarrow> True
      | UnknownOperation name \<Rightarrow> True
      | MustSpecifyRegister \<Rightarrow> True
      | CantSpecifyRegister r \<Rightarrow> True
      | RequiresTargetAddress \<Rightarrow> True
      | RequiresBinaryValue \<Rightarrow> True
      | DataTooWide d \<Rightarrow> True
      | OpcodeTooWide opc \<Rightarrow> True
      | _ \<Rightarrow> False)"

text \<open>The state of a walk without its list of instructions.\<close>

definition walk_tables ::
    "Walk \<Rightarrow> (string \<times> nat) list option \<times> (string \<times> OperationObj) list \<times> bool" where
  "walk_tables w = (w_labels w, w_ops w, w_unreachable w)"


section \<open>Properties\<close>

subsection \<open>Evaluation\<close>

lemma defaultOps_parsed [code]:
  "defaultOps =
     [\<lparr>op_op = ''CALL'', op_reg = Reg_never, op_data = Data_address, op_alwaysBranches = False,
       op_output = [\<lparr>out_opcode = Fin 0, out_useRegister = True, out_useData = True\<rparr>]\<rparr>,
      \<lparr>op_op = ''RET'', op_reg = Reg_never, op_data = Data_none, op_alwaysBranches = True,
       op_output = [\<lparr>out_opcode = Fin 1, out_useRegister = True, out_useData = True\<rparr>]\<rparr>,
      \<lparr>op_op = ''BZ'', op_reg = Reg_always, op_data = Data_address, op_alwaysBranches = False,
       op_output = [\<lparr>out_opcode = Fin 2, out_useRegister = True, out_useData = True\<rparr>]\<rparr>,
      \<lparr>op_op = ''B'', op_reg = Reg_never, op_data = Data_address, op_alwaysBranches = True,
       op_output = [\<lparr>out_opcode = Fin 3, out_useRegister = True, out_useData = True\<rparr>]\<rparr>,
      \<lparr>op_op = ''ADD'', op_reg = Reg_always, op_data = Data_binary, op_alwaysBranches = False,
       op_output = [\<lparr>out_opcode = Fin 4, out_useRegister = True, out_useData = True\<rparr>]\<rparr>,
      \<lparr>op_op = ''SUB'', op_reg = Reg_always, op_data = Data_binary, op_alwaysBranches = False,
       op_output = [\<lparr>out_opcode = Fin 5, out_useRegister = True, out_useData = True\<rparr>]\<rparr>,
      \<lparr>op_op = ''LD'', op_reg = Reg_always, op_data = Data_binary, op_alwaysBranches = False,
       op_output = [\<lparr>out_opcode = Fin 6, out_useRegister = True, out_useData = True\<rparr>]\<rparr>,
      \<lparr>op_op = ''IN'', op_reg = Reg_always, op_data = Data_none, op_alwaysBranches = False,
       op_output = [\<lparr>out_opcode = Fin 7, out_useRegister = True, out_useData = True\<rparr>]\<rparr>,
      \<lparr>op_op = ''OUT'', op_reg = Reg_always, op_data = Data_none, op_alwaysBranches = False,
       op_output = [\<lparr>out_opcode = Fin 8, out_useRegister = True, out_useData = True\<rparr>]\<rparr>,
      \<lparr>op_op = ''AND'', op_reg = Reg_always, op_data = Data_binary, op_alwaysBranches = False,
       op_output = [\<lparr>out_opcode = Fin 9, out_useRegister = True, out_useData = True\<rparr>]\<rparr>,
      \<lparr>op_op = ''WRITE'', op_reg = Reg_optional, op_data = Data_binary, op_alwaysBranches = False,
       op_output = [\<lparr>out_opcode = Fin 6, out_useRegister = True, out_useData = True\<rparr>,
                    \<lparr>out_opcode = Fin 8, out_useRegister = True, out_useData = False\<rparr>]\<rparr>]"
  by code_simp

lemma assemble_via_instructions:
  "assemble content =
     (case assemble_instructions content of
        (warnings, Inl e) \<Rightarrow> (warnings, Inl e)
      | (warnings, Inr insts) \<Rightarrow> (warnings, Inr (emit_text insts)))"
  by (simp add: assemble_def assemble_instructions_def Program_emit_def split: sum.splits)

subsection \<open>The loop, one line at a time\<close>

lemma process_lines_Cons:
  "process_lines options i (line # rest) w =
     (case process_line options i line w of
        (warnings, Inl e) \<Rightarrow> (warnings, Inl (FailedToEmitLine (i + 1) (line_line line) e))
      | (warnings, Inr (line', w')) \<Rightarrow>
          (case process_lines options (Suc i) rest w' of
             (warnings', Inl e) \<Rightarrow> (warnings @ warnings', Inl e)
           | (warnings', Inr (rest', w'')) \<Rightarrow> (warnings @ warnings', Inr (line' # rest', w''))))"
  by (auto split: prod.splits sum.splits)

lemma process_lines_Nil: "process_lines options i [] w = ([], Inr ([], w))"
  by simp

declare process_lines.simps [simp del]

subsection \<open>Lines of a text\<close>

lemma one_line_subset: "set a \<subseteq> set b \<Longrightarrow> one_line b \<Longrightarrow> one_line a"
  by (auto simp: one_line_def)

lemma one_line_append [simp]: "one_line (a @ b) \<longleftrightarrow> one_line a \<and> one_line b"
  by (auto simp: one_line_def)

lemma split_nonempty [simp]: "split c s \<noteq> []"
  by (induction s) (auto split: list.splits)

lemma split_append_sep: "c \<notin> set l \<Longrightarrow> split c (l @ c # rest) = l # split c rest"
  by (induction l) (auto split: list.splits)

lemma split_pieces: "p \<in> set (split c s) \<Longrightarrow> c \<notin> set p \<and> set p \<subseteq> set s"
proof (induction s arbitrary: p)
  case Nil
  then show ?case by simp
next
  case (Cons x xs)
  show ?case
  proof (cases "x = c")
    case True
    then show ?thesis using Cons by auto
  next
    case False
    obtain y ys where s: "split c xs = y # ys" by (cases "split c xs") auto
    have iy: "c \<notin> set y \<and> set y \<subseteq> set xs" using Cons.IH [of y] s by simp
    have iq: "c \<notin> set q \<and> set q \<subseteq> set xs" if "q \<in> set ys" for q
      using Cons.IH [of q] s that by simp
    from Cons.prems False s have "p = x # y \<or> p \<in> set ys" by simp
    then show ?thesis using iy iq False by auto
  qed
qed

lemma split_unlines:
  "\<forall>l \<in> set ls. CHR 0x0A \<notin> set l \<Longrightarrow> split CHR 0x0A (unlines ls) = ls @ [[]]"
proof (induction ls)
  case Nil
  then show ?case by (simp add: unlines_def)
next
  case (Cons l ls)
  have "unlines (l # ls) = l @ CHR 0x0A # unlines ls" by (simp add: unlines_def)
  then show ?case using Cons by (simp add: split_append_sep)
qed

lemma text_lines_unlines:
  "\<forall>l \<in> set ls. CHR 0x0A \<notin> set l \<Longrightarrow> text_lines (unlines ls) = ls"
  by (simp add: text_lines_def split_unlines)

lemma set_trim: "set (trim s) \<subseteq> set s"
proof -
  have "set (trimEnd t) \<subseteq> set t" for t
    unfolding trimEnd_def using set_dropWhileD [of _ isWhiteSpace "rev t"] by auto
  moreover have "set (trimStart s) \<subseteq> set s"
    unfolding trimStart_def using set_dropWhileD by fastforce
  ultimately show ?thesis unfolding trim_def by blast
qed

lemma set_replaceAll_nil: "set (replaceAll c [] s) = set s - {c}"
  by (induction s) (auto simp: replaceAll_def)

lemma set_replaceAll: "set (replaceAll c r s) \<subseteq> set s \<union> set r"
  by (induction s) (auto simp: replaceAll_def)

subsection \<open>Hexadecimal words\<close>

lemma hex_digit_char: "k < 16 \<Longrightarrow> ''0123456789abcdef'' ! k \<in> set ''0123456789abcdef''"
  by (rule nth_mem) simp

lemma hex_of_int_chars: "set (hex_of_int n) \<subseteq> set ''0123456789abcdef''"
proof (induction n rule: hex_of_int.induct)
  case (1 n)
  show ?case
  proof (cases "n < 16")
    case True
    then have "nat n < 16" by simp
    then show ?thesis using True hex_digit_char [of "nat n"] by (subst hex_of_int.simps) simp
  next
    case False
    have "nat (n mod 16) < 16" by simp
    then show ?thesis
      using False 1 hex_digit_char [of "nat (n mod 16)"] by (subst hex_of_int.simps) simp
  qed
qed

lemma hex_of_int_length: "0 \<le> n \<Longrightarrow> n < 65536 \<Longrightarrow> length (hex_of_int n) \<le> 4"
proof -
  assume a: "0 \<le> n" "n < 65536"
  have l1: "length (hex_of_int k) = 1" if "k < 16" for k
    using that by (subst hex_of_int.simps) simp
  have l2: "length (hex_of_int k) \<le> 2" if "k < 256" for k
    using that l1 [of "k div 16"] l1 [of k] by (subst hex_of_int.simps) auto
  have l3: "length (hex_of_int k) \<le> 3" if "k < 4096" for k
    using that l2 [of "k div 16"] l1 [of k] by (subst hex_of_int.simps) auto
  show ?thesis
    using a l3 [of "n div 16"] l1 [of n] by (subst hex_of_int.simps) auto
qed

lemma hex_of_int_nonempty: "hex_of_int n \<noteq> []"
  by (subst hex_of_int.simps) simp

lemma hex_of_int_one_line: "one_line (hex_of_int k)"
proof -
  have "one_line ''0123456789abcdef''" by (simp add: one_line_def)
  with hex_of_int_chars [of k] show ?thesis by (rule one_line_subset)
qed

lemma toString16_one_line: "one_line (toString16 n)"
  using hex_of_int_one_line [of n] hex_of_int_one_line [of "- n"]
  by (simp add: toString16_def one_line_def)

subsection \<open>The word of an instruction\<close>

lemma pb: "push_bit n (word_of_int a :: 32 word) = word_of_int (push_bit n a)"
  by (simp add: push_bit_eq_mult wi_hom_mult)

lemma pb1: "push_bit 8 (if r then 1 else 0 :: 32 word) = word_of_int (push_bit 8 (if r then 1 else 0))"
  by simp

lemma word_K:
  fixes a d :: int
  assumes "0 \<le> a" "a \<le> 15" "0 \<le> d" "d \<le> 127"
  shows "0 \<le> sint (push_bit 9 (word_of_int a :: 32 word) OR push_bit 8 (if r then 1 else 0) OR word_of_int d)
         \<and> sint (push_bit 9 (word_of_int a :: 32 word) OR push_bit 8 (if r then 1 else 0) OR word_of_int d) < 8192"
proof -
  define K :: int where "K = push_bit 9 a OR push_bit 8 (if r then 1 else 0) OR d"
  have w: "push_bit 9 (word_of_int a :: 32 word) OR push_bit 8 (if r then 1 else 0) OR word_of_int d
        = word_of_int K"
    unfolding K_def pb pb1 word_wi_log_defs ..
  have p1: "0 \<le> push_bit 9 a \<and> push_bit 9 a < 2 ^ 13"
    using assms by (simp add: push_bit_eq_mult)
  have p2: "0 \<le> push_bit 8 (if r then 1 else 0 :: int) \<and> push_bit 8 (if r then 1 else 0 :: int) < 2 ^ 13"
    by simp
  have p3: "d < 2 ^ 13" using assms by simp
  have k0: "0 \<le> K" unfolding K_def using p1 p2 assms by simp
  have ab: "push_bit 8 (if r then 1 else 0) OR d < 2 ^ 13"
    by (rule OR_upper) (use p2 p3 in simp_all)
  have k1: "K < 2 ^ 13" unfolding K_def by (rule OR_upper) (use p1 ab in simp_all)
  have "sint (word_of_int K :: 32 word) = K"
    using k0 k1 by (simp add: sint_sbintrunc' signed_take_bit_int_eq_self)
  then show ?thesis using w k0 k1 by simp
qed

lemma ToInt32_small:
  assumes "js_nonneg x" and "\<not> js_gt x (of_int k)"
  shows "\<exists>a. 0 \<le> a \<and> a \<le> k \<and> ToInt32 x = word_of_int a"
proof (cases x)
  case (Fin q)
  then have q: "0 \<le> q" "q \<le> of_int k" using assms by (simp_all add: js_nonneg_def js_gt_def)
  then have f: "0 \<le> \<lfloor>q\<rfloor>" "\<lfloor>q\<rfloor> \<le> k" by (simp_all add: floor_le_iff le_floor_iff)
  have "ToInt32 x = word_of_int \<lfloor>q\<rfloor>" using Fin q by (simp add: ToInt32_def)
  with f show ?thesis by blast
next
  case PosInf
  then show ?thesis using assms by (simp add: js_gt_def)
next
  case NegInf
  then show ?thesis using assms by (simp add: js_nonneg_def)
qed

lemma inst_word_range:
  assumes "inst_ok inst" and "inst_nonneg inst"
  shows "0 \<le> inst_word inst \<and> inst_word inst < 8192"
proof -
  obtain a where a: "0 \<le> a" "a \<le> 15" "ToInt32 (inst_opcode inst) = word_of_int a"
    using ToInt32_small [of "inst_opcode inst" 15] assms by (auto simp: inst_ok_def inst_nonneg_def)
  obtain d where d: "0 \<le> d" "d \<le> 127" "ToInt32 (inst_data inst) = word_of_int d"
    using ToInt32_small [of "inst_data inst" 127] assms by (auto simp: inst_ok_def inst_nonneg_def)
  show ?thesis
    unfolding inst_word_def a(3) d(3) using word_K [OF a(1,2) d(1,2)] by simp
qed

lemma neg_bit31: "- 2147483648 \<le> (k::int) \<Longrightarrow> k < 0 \<Longrightarrow> bit k 31"
  apply (simp add: bit_iff_odd)
  apply (subgoal_tac "k div 2147483648 = -1")
   apply simp
  apply (simp add: div_pos_neg_trivial zdiv_eq_0_iff)
  done

lemma sint_neg_iff: "sint (w :: 32 word) < 0 \<longleftrightarrow> bit w 31"
  using bit_last_iff [of w] by simp

lemma ToInt32_negative:
  assumes "q \<le> - 1" and "- 2147483649 < q"
  shows "bit (ToInt32 (Fin q)) 31"
proof -
  have "\<lceil>q\<rceil> < 0" using assms(1) by (simp add: ceiling_less_iff)
  moreover have "- 2147483648 \<le> \<lceil>q\<rceil>" using assms(2) by (simp add: le_ceiling_iff)
  ultimately have "bit \<lceil>q\<rceil> 31" by (simp add: neg_bit31)
  then show ?thesis using assms(1) by (simp add: ToInt32_def bit_word_of_int_iff)
qed

lemma inst_word_negative:
  assumes "bit (ToInt32 (inst_data i)) 31"
  shows "inst_word i < 0"
  using assms by (simp add: inst_word_def sint_neg_iff bit_or_iff)

lemma minus_in_take4:
  "CHR ''-'' \<in> set (take 4 (padStart 4 CHR ''0'' (CHR ''-'' # h) @ rest))"
proof (cases "3 \<le> length h")
  case True
  then show ?thesis by (simp add: padStart_def)
next
  case False
  then have "length h = 0 \<or> length h = 1 \<or> length h = 2" by arith
  then show ?thesis by (auto simp: padStart_def numeral_eq_Suc)
qed

lemma negative_word_not_ok:
  assumes "inst_word i < 0"
  shows "\<not> line_ok (Instruction_toString i)"
proof -
  have "CHR ''-'' \<in> set (take 4 (Instruction_toString i))"
    using assms minus_in_take4 by (simp add: Instruction_toString_def toString16_def)
  moreover have "CHR ''-'' \<notin> set ''0123456789abcdef''" by simp
  ultimately have "\<not> list_all (\<lambda>c. c \<in> set ''0123456789abcdef'') (take 4 (Instruction_toString i))"
    unfolding list_all_iff by blast
  then show ?thesis unfolding line_ok_def by blast
qed

lemma Instruction_toString_one_line:
  "one_line (inst_comment inst) \<Longrightarrow> one_line (Instruction_toString inst)"
  using toString16_one_line [of "inst_word inst"]
  by (simp add: Instruction_toString_def padStart_def one_line_def)

lemma padded_hex:
  assumes "0 \<le> n" and "n < 65536"
  shows "length (padStart 4 CHR ''0'' (toString16 n)) = 4
         \<and> set (padStart 4 CHR ''0'' (toString16 n)) \<subseteq> set ''0123456789abcdef''"
proof -
  have t: "toString16 n = hex_of_int n" using assms by (simp add: toString16_def)
  have z: "CHR ''0'' \<in> set ''0123456789abcdef''" by simp
  have "set (replicate k CHR ''0'') \<subseteq> set ''0123456789abcdef''" for k
    using z by (metis set_replicate_conv_if empty_subsetI insert_subset)
  then show ?thesis
    using hex_of_int_length [OF assms] hex_of_int_chars [of n]
    unfolding t padStart_def by (simp del: set_replicate)
qed

lemma Instruction_toString_ok:
  assumes "inst_ok inst" and "inst_nonneg inst"
  shows "line_ok (Instruction_toString inst)"
proof -
  let ?h = "padStart 4 CHR ''0'' (toString16 (inst_word inst))"
  have h: "length ?h = 4 \<and> set ?h \<subseteq> set ''0123456789abcdef''"
    using inst_word_range [OF assms] by (intro padded_hex) auto
  have s: "Instruction_toString inst = ?h @ CHR '';'' # inst_comment inst"
    by (simp add: Instruction_toString_def)
  have "take 4 (Instruction_toString inst) = ?h" using h s by simp
  moreover have "Instruction_toString inst ! 4 = CHR '';''" using h s by (simp add: nth_append)
  moreover have "drop 5 (Instruction_toString inst) = inst_comment inst" using h s by simp
  moreover have "5 \<le> length (Instruction_toString inst)" using h s by simp
  moreover have "list_all (\<lambda>c. c \<in> set ''0123456789abcdef'') ?h"
    using h unfolding list_all_iff by blast
  ultimately show ?thesis using assms(1) unfolding line_ok_def inst_ok_def by presburger
qed

subsection \<open>The emitted text\<close>

lemma emit_text_unlines:
  "emit_text insts = unlines (map Instruction_toString insts @ replicate (64 - length insts) filler)"
  by (simp add: emit_text_def unlines_def filler_def comp_def)

lemma emit_text_lines:
  assumes "list_all inst_ok insts"
  shows "text_lines (emit_text insts)
         = map Instruction_toString insts @ replicate (64 - length insts) filler"
proof -
  have "\<forall>l \<in> set (map Instruction_toString insts @ replicate (64 - length insts) filler).
          CHR 0x0A \<notin> set l"
    using assms Instruction_toString_one_line
    by (auto simp: list_all_iff inst_ok_def one_line_def filler_def)
  then show ?thesis unfolding emit_text_unlines by (rule text_lines_unlines)
qed

subsection \<open>Parsed lines are clean\<close>

lemma parse_item_label:
  "parse_item text options = Inr (Some (ItemLabel name)) \<Longrightarrow> name = drop 1 text"
  by (auto simp: parse_item_def split: if_splits sum.splits)

lemma Line_parse_clean:
  assumes "one_line line" and "Line_parse line options = Inr l"
  shows "line_clean l"
proof -
  define text0 where "text0 = (case indexOf line ''#'' of Some ix \<Rightarrow> take ix line | None \<Rightarrow> line)"
  define comment where
    "comment = (case indexOf text0 ''//'' of Some ix \<Rightarrow> Some (drop (ix + 2) text0) | None \<Rightarrow> None)"
  define text1 where "text1 = (case indexOf text0 ''//'' of Some ix \<Rightarrow> take ix text0 | None \<Rightarrow> text0)"
  have s0: "set text0 \<subseteq> set line"
    unfolding text0_def by (auto split: option.splits dest: in_set_takeD)
  have s1: "set text1 \<subseteq> set text0"
    unfolding text1_def by (auto split: option.splits dest: in_set_takeD)
  have sc: "set c \<subseteq> set text0" if "comment = Some c" for c
    using that unfolding comment_def by (auto split: option.splits dest: in_set_dropD)
  have st: "set (trim text1) \<subseteq> set line" using set_trim [of text1] s0 s1 by blast
  obtain item where item: "parse_item (trim text1) options = Inr item"
    and l: "l = \<lparr>line_line = line, line_uncommentedLine = trim text1, line_item = item,
                 line_comment = comment, line_secretComment = line_secretComment l\<rparr>"
    using assms(2) unfolding Line_parse_def text0_def text1_def comment_def
    by (auto simp: Let_def split: option.splits sum.splits)
  have a: "one_line (line_uncommentedLine l)"
    using l st assms(1) one_line_subset by (metis Line.select_convs(2))
  have b: "one_line c" if "line_comment l = Some c" for c
  proof -
    have "comment = Some c" using that l by (metis Line.select_convs(4))
    then have "set c \<subseteq> set line" using sc s0 by blast
    then show ?thesis using assms(1) one_line_subset by blast
  qed
  have c: "one_line name" if "line_item l = Some (ItemLabel name)" for name
  proof -
    have "item = Some (ItemLabel name)" using that l by (metis Line.select_convs(3))
    then have "name = drop 1 (trim text1)" using item parse_item_label by blast
    then have "set name \<subseteq> set line" using st by (auto dest: in_set_dropD)
    then show ?thesis using assms(1) one_line_subset by blast
  qed
  show ?thesis
    unfolding line_clean_def using a b c
    by (auto split: option.splits Item.splits)
qed

lemma parse_lines_clean:
  "\<forall>line \<in> set ls. one_line line \<Longrightarrow> parse_lines options ix ls = Inr out \<Longrightarrow>
   list_all line_clean out"
proof (induction ls arbitrary: ix out)
  case Nil
  then show ?case by simp
next
  case (Cons line rest)
  then show ?case
    by (auto split: sum.splits dest: Line_parse_clean)
qed

lemma Program_parse_clean:
  assumes "Program_parse content options = Inr ls"
  shows "list_all line_clean ls"
proof -
  have "one_line p" if "p \<in> set (split CHR 0x0A (replaceAll CHR 0x0D [] content))" for p
    using split_pieces [OF that] set_replaceAll_nil [of "CHR 0x0D" content]
    by (auto simp: one_line_def)
  then show ?thesis using assms parse_lines_clean unfolding Program_parse_def by blast
qed

subsection \<open>The walk keeps its state clean\<close>

lemma emit_outputs_ok:
  "one_line c \<Longrightarrow> emit_outputs outs s c = Inr insts \<Longrightarrow> list_all inst_ok insts"
proof (induction outs arbitrary: insts)
  case Nil
  then show ?case by simp
next
  case (Cons out outs)
  then show ?case
    by (auto simp: new_Instruction_def inst_ok_def split: sum.splits if_splits)
qed

lemma one_line_literals:
  "one_line []" "one_line '':''" "one_line '' ''" "one_line ''_''"
  "one_line ''(Assembly: ''" "one_line '')''"
  by (simp_all add: one_line_def)

lemma replaceAll_one_line: "one_line r \<Longrightarrow> one_line k \<Longrightarrow> one_line (replaceAll c r k)"
  using set_replaceAll [of c r k] unfolding one_line_def by blast

lemma labelComment_one_line:
  assumes "case labels of None \<Rightarrow> True | Some m \<Rightarrow> list_all (\<lambda>p. one_line (fst p)) m"
  shows "one_line (labelComment labels n)"
proof (cases labels)
  case None
  then show ?thesis by (simp add: labelComment_def one_line_literals)
next
  case (Some m)
  have "list_all (\<lambda>p. one_line (fst p)) m \<Longrightarrow>
        one_line (concat (map (\<lambda>p. if n = snd p
                 then '':'' @ replaceAll CHR '' '' ''_'' (fst p) @ '' '' else []) m))"
  proof (induction m)
    case Nil
    then show ?case by (simp add: one_line_literals)
  next
    case (Cons p m)
    have f: "one_line (fst p)" and r: "list_all (\<lambda>p. one_line (fst p)) m"
      using Cons.prems by simp_all
    have h: "one_line ('':'' @ replaceAll CHR '' '' ''_'' (fst p) @ '' '')"
      unfolding one_line_append
      using f one_line_literals replaceAll_one_line by blast
    have t: "one_line (concat (map (\<lambda>p. if n = snd p
                 then '':'' @ replaceAll CHR '' '' ''_'' (fst p) @ '' '' else []) m))"
      using Cons.IH [OF r] .
    show ?case
    proof (cases "n = snd p")
      case True
      then show ?thesis using h t by (simp del: append.simps add: one_line_append)
    next
      case False
      then show ?thesis using t by simp
    qed
  qed
  then show ?thesis using assms Some by (simp add: labelComment_def)
qed

lemma statement_comment_one_line:
  assumes "line_clean line"
    and "case labels of None \<Rightarrow> True | Some m \<Rightarrow> list_all (\<lambda>p. one_line (fst p)) m"
  shows "one_line (statement_comment line labels n)"
proof -
  have u: "one_line (line_uncommentedLine line)" using assms(1) by (simp add: line_clean_def)
  have c: "one_line (case line_comment line of None \<Rightarrow> [] | Some c \<Rightarrow> c)"
    using assms(1) by (simp add: line_clean_def one_line_literals split: option.splits)
  have d: "one_line (case line_comment line of None \<Rightarrow> [] | Some c \<Rightarrow> if c = [] then [] else '' '')"
    by (simp add: one_line_literals split: option.splits)
  show ?thesis
    unfolding statement_comment_def one_line_append
    using u c d labelComment_one_line [OF assms(2), of n] one_line_literals by blast
qed

lemma encode_statement_clean:
  assumes "line_clean line" and "walk_clean w"
    and "encode_statement line s operation w = Inr (line', w')"
  shows "line_clean line' \<and> walk_clean w'"
proof -
  have c: "one_line (statement_comment line (w_labels w) (length (w_instructions w)))"
    using assms(1,2) by (intro statement_comment_one_line) (simp_all add: walk_clean_def)
  obtain insts where e: "emit_outputs (op_output operation) s
        (statement_comment line (w_labels w) (length (w_instructions w))) = Inr insts"
    and l: "line' = line\<lparr>line_item := Some (ItemStatement s)\<rparr>"
    and w: "w' = w\<lparr>w_instructions := w_instructions w @ insts,
                   w_unreachable := (op_alwaysBranches operation \<or> w_unreachable w)\<rparr>"
    using assms(3) by (auto simp: encode_statement_def split: sum.splits)
  have "list_all inst_ok insts" using emit_outputs_ok [OF c e] .
  then have "walk_clean w'" using assms(2) w by (simp add: walk_clean_def)
  moreover have "line_clean line'" using assms(1) l by (simp add: line_clean_def)
  ultimately show ?thesis by simp
qed

lemma set_Map_set: "set (Map_set m k v) \<subseteq> insert (k, v) (set m)"
  by (induction m) auto

lemma process_line_clean:
  assumes "line_clean line" and "walk_clean w"
    and "process_line options i line w = (ws, Inr (line', w'))"
  shows "line_clean line' \<and> walk_clean w'"
proof (cases "line_item line")
  case None
  then show ?thesis using assms by (simp add: process_line_def)
next
  case (Some item)
  show ?thesis
  proof (cases item)
    case (ItemStatement s0)
    then obtain s operation where "encode_statement line s operation w = Inr (line', w')"
      using assms(3) Some
      by (auto simp: process_line_def process_statement_def Let_def
               split: sum.splits option.splits prod.splits if_splits)
    then show ?thesis using assms(1,2) encode_statement_clean by blast
  next
    case (ItemLabel name)
    have n: "one_line name" using assms(1) Some ItemLabel by (simp add: line_clean_def)
    have "list_all (\<lambda>p. one_line (fst p)) (Map_set m name k)"
      if "list_all (\<lambda>p. one_line (fst p)) m" for m and k :: nat
      using that n set_Map_set [of m name k] unfolding list_all_iff by fastforce
    then show ?thesis
      using assms Some ItemLabel
      by (auto simp: process_line_def walk_clean_def split: if_splits option.splits)
  next
    case (ItemAttribute content operation flag)
    then show ?thesis
      using assms Some by (auto simp: process_line_def walk_clean_def Let_def)
  qed
qed

lemma process_lines_clean:
  "list_all line_clean ls \<Longrightarrow> walk_clean w \<Longrightarrow>
   process_lines options i ls w = (ws, Inr (ls', w')) \<Longrightarrow>
   list_all line_clean ls' \<and> walk_clean w'"
proof (induction ls arbitrary: i w ws ls' w')
  case Nil
  then show ?case by (simp add: process_lines_Nil)
next
  case (Cons line rest)
  obtain ws1 line1 w1 where p1: "process_line options i line w = (ws1, Inr (line1, w1))"
    using Cons.prems(3) by (auto simp: process_lines_Cons split: prod.splits sum.splits)
  obtain ws2 rest2 where p2: "process_lines options (Suc i) rest w1 = (ws2, Inr (rest2, w'))"
    and r: "ls' = line1 # rest2"
    using Cons.prems(3) p1 by (auto simp: process_lines_Cons split: prod.splits sum.splits)
  have c1: "line_clean line1 \<and> walk_clean w1"
    using process_line_clean [OF _ Cons.prems(2) p1] Cons.prems(1) by simp
  have "list_all line_clean rest2 \<and> walk_clean w'"
    using Cons.IH [OF _ _ p2] c1 Cons.prems(1) by simp
  then show ?case using c1 r by simp
qed

lemma process_clean:
  assumes "list_all line_clean (prog_lines prog)"
    and "case prog_labels prog of None \<Rightarrow> True | Some m \<Rightarrow> list_all (\<lambda>p. one_line (fst p)) m"
    and "process prog options = (ws, Inr (insts, prog'))"
  shows "list_all inst_ok insts \<and> list_all line_clean (prog_lines prog')
         \<and> (case prog_labels prog' of None \<Rightarrow> True | Some m \<Rightarrow> list_all (\<lambda>p. one_line (fst p)) m)"
proof -
  let ?w = "\<lparr>w_labels = prog_labels prog, w_ops = prog_ops prog,
              w_instructions = [], w_unreachable = False\<rparr>"
  obtain ls' w' where p: "process_lines options 0 (prog_lines prog) ?w = (ws, Inr (ls', w'))"
    and i: "insts = w_instructions w'"
    and p': "prog' = \<lparr>prog_lines = ls', prog_labels = w_labels w', prog_ops = w_ops w'\<rparr>"
    using assms(3) by (auto simp: process_def split: prod.splits sum.splits)
  have "walk_clean ?w" using assms(2) by (simp add: walk_clean_def)
  then have "list_all line_clean ls' \<and> walk_clean w'"
    using process_lines_clean [OF assms(1) _ p] by simp
  then show ?thesis using i p' by (simp add: walk_clean_def)
qed

lemma assemble_program_clean:
  assumes "assemble_program content = Inr prog"
  shows "list_all line_clean (prog_lines prog)
         \<and> (case prog_labels prog of None \<Rightarrow> True | Some m \<Rightarrow> list_all (\<lambda>p. one_line (fst p)) m)"
proof -
  obtain ls ops where pp: "Program_parse content
        \<lparr>po_supportedOps = Some ops, po_expectBinaryData = None, po_parseItemTypes = None\<rparr> = Inr ls"
    and r: "Program_resolveLabels \<lparr>prog_lines = ls, prog_labels = None, prog_ops = setOps ops\<rparr>
            = Inr prog"
    using assms by (auto simp: assemble_program_def Let_def split: sum.splits)
  have c: "list_all line_clean ls" using Program_parse_clean [OF pp] .
  obtain ws insts where
    "process \<lparr>prog_lines = ls, prog_labels = Some [], prog_ops = setOps ops\<rparr> label_pass
       = (ws, Inr (insts, prog))"
    using r by (cases "process \<lparr>prog_lines = ls, prog_labels = Some [], prog_ops = setOps ops\<rparr> label_pass")
       (auto simp: Program_resolveLabels_def label_pass_def split: sum.splits)
  from process_clean [OF _ _ this] c show ?thesis by simp
qed

lemma assemble_instructions_ok:
  assumes "assemble_instructions content = (ws, Inr insts)"
  shows "list_all inst_ok insts"
proof -
  obtain prog where p: "assemble_program content = Inr prog"
    and e: "emit_instructions prog = (ws, Inr insts)"
    using assms by (auto simp: assemble_instructions_def split: sum.splits)
  obtain prog' where "process prog encoding_pass = (ws, Inr (insts, prog'))"
    using e by (auto simp: emit_instructions_def encoding_pass_def split: if_splits prod.splits sum.splits)
  from process_clean [OF _ _ this] assemble_program_clean [OF p] show ?thesis by simp
qed

subsection \<open>The operation table\<close>

lemma Map_get_delete: "Map_get (Map_delete m k) k' = (if k' = k then None else Map_get m k')"
  by (induction m) (auto simp: Map_get_def Map_delete_def)

lemma Map_get_remove_default:
  "Map_get (remove_default m d) k
   = (if k = toUpperCase (op_op d) \<and> Map_get m k = Some (DefaultInstance, d)
      then None else Map_get m k)"
  by (auto simp: remove_default_def Map_get_delete)

lemma remove_defaults_fold:
  "Map_get (foldl remove_default ops ds) k
   = (if \<exists>d. d \<in> set ds \<and> k = toUpperCase (op_op d) \<and> Map_get ops k = Some (DefaultInstance, d)
      then None else Map_get ops k)"
proof (induction ds arbitrary: ops)
  case Nil
  then show ?case by simp
next
  case (Cons d ds)
  show ?case
    unfolding foldl_Cons Cons.IH [of "remove_default ops d"] Map_get_remove_default
    by auto
qed

lemma Map_get_set: "Map_get (Map_set m k v) k' = (if k' = k then Some v else Map_get m k')"
  by (induction m) (auto simp: Map_get_def)

subsection \<open>Clearing the defaults\<close>

lemma call_only_assembles:
  "assemble (join_lines call_only_lines)
     = ([], Inr (unlines (''0001;(Assembly: CALL :x)'' # replicate 63 filler)))"
  by code_simp

lemma call_only_label_first:
  "assemble (join_lines ('':x'' # butlast call_only_lines))
     = ([], Inr (unlines (''0000;(Assembly: :x CALL :x)'' # replicate 63 filler)))"
  by code_simp

lemma call_only_others_after:
  "list_all (\<lambda>n. assemble (join_lines (call_only_lines @ [n]))
                    = ([], Inl (FailedToEmitLine 5 n (UnknownOperation n))))
     other_default_names"
  by code_simp

lemma call_only_others_before:
  "list_all (\<lambda>n. assemble (join_lines (n # call_only_lines))
                    = ([], Inl (FailedToEmitLine 1 n (UnknownOperation n))))
     other_default_names"
  by code_simp

lemma other_default_names_eq:
  "other_default_names
     = [''RET'', ''BZ'', ''B'', ''ADD'', ''SUB'', ''LD'', ''IN'', ''OUT'', ''AND'', ''WRITE'']"
  by code_simp

text \<open>
  C5: processing \<^verbatim>\<open>@no_default_ops\<close> removes from the operation table exactly the entries
  that are still the default instances (a key loses its entry if and only if the entry is the
  default instance of that name), and an entry that a redefinition has put there stays.
  The file \<^verbatim>\<open>@no_default_ops\<close>, \<^verbatim>\<open>@define CALL reg=never data=address => 0\<close>,
  \<^verbatim>\<open>CALL :x\<close>, \<^verbatim>\<open>:x\<close> assembles (also with the label first); with a line that is
  the bare name of any other default operation, after or before these lines, it fails with
  "Unknown operation".
\<close>

theorem no_default_ops_directive:
  "Map_get (remove_defaults ops) k
     = (if \<exists>d. d \<in> set defaultOps \<and> k = toUpperCase (op_op d)
                \<and> Map_get ops k = Some (DefaultInstance, d)
        then None else Map_get ops k)
   \<and> Map_get (remove_defaults (Map_set ops k (ParsedInstance, d'))) k = Some (ParsedInstance, d')
   \<and> assemble (join_lines call_only_lines)
       = ([], Inr (unlines (''0001;(Assembly: CALL :x)'' # replicate 63 filler)))
   \<and> assemble (join_lines ('':x'' # butlast call_only_lines))
       = ([], Inr (unlines (''0000;(Assembly: :x CALL :x)'' # replicate 63 filler)))
   \<and> other_default_names
       = [''RET'', ''BZ'', ''B'', ''ADD'', ''SUB'', ''LD'', ''IN'', ''OUT'', ''AND'', ''WRITE'']
   \<and> list_all (\<lambda>n. assemble (join_lines (call_only_lines @ [n]))
                      = ([], Inl (FailedToEmitLine 5 n (UnknownOperation n))))
        other_default_names
   \<and> list_all (\<lambda>n. assemble (join_lines (n # call_only_lines))
                      = ([], Inl (FailedToEmitLine 1 n (UnknownOperation n))))
        other_default_names"
proof -
  have a: "Map_get (remove_defaults ops) k
     = (if \<exists>d. d \<in> set defaultOps \<and> k = toUpperCase (op_op d)
                \<and> Map_get ops k = Some (DefaultInstance, d)
        then None else Map_get ops k)" for ops :: "(string \<times> OperationObj) list"
    unfolding remove_defaults_def by (rule remove_defaults_fold)
  have b: "Map_get (remove_defaults (Map_set ops k (ParsedInstance, d'))) k = Some (ParsedInstance, d')"
    unfolding a by (simp add: Map_get_set)
  show ?thesis
    using a b call_only_assembles call_only_label_first other_default_names_eq
      call_only_others_after call_only_others_before
    by blast
qed

theorem no_default_ops_directive_witness:
  "Map_get (remove_defaults default_table) ''ADD'' = None
   \<and> Map_get (remove_defaults (Map_set default_table ''ADD'' (ParsedInstance, defaultOps ! 0))) ''ADD''
       = Some (ParsedInstance, defaultOps ! 0)"
proof -
  have "Map_get default_table ''ADD'' = Some (DefaultInstance, defaultOps ! 4)
        \<and> defaultOps ! 4 \<in> set defaultOps \<and> ''ADD'' = toUpperCase (op_op (defaultOps ! 4))"
    by code_simp
  then show ?thesis
    using no_default_ops_directive [of default_table "''ADD''" "defaultOps ! 0"]
          no_default_ops_directive [of "default_table" "''ADD''" "defaultOps ! 0"]
    by metis
qed

subsection \<open>Redefinitions\<close>

text \<open>
  C6 says that a \<^verbatim>\<open>@define\<close> stores the operation under its uppercased name, so that the
  keys of the table are uppercase and a statement of that name in any letter case resolves to
  the new definition. The walk stores it under the name as written: after
  \<^verbatim>\<open>@define add ... data=address\<close> the default ADD is still the first operation of
  that name, so \<^verbatim>\<open>ADD R0 5\<close> is parsed as binary data and rejected, whereas the same
  file with the name written \<^verbatim>\<open>ADD\<close> assembles; and after \<^verbatim>\<open>@define foo\<close> the
  table holds the key \<^verbatim>\<open>foo\<close> beside \<^verbatim>\<open>FOO\<close>.
\<close>

theorem define_keeps_written_case:
  "assemble (join_lines [''@define add reg=always data=address => 4'', ''ADD R0 5''])
     = ([], Inl (SyntaxErrorAtLine 2 ''ADD R0 5'' (NumberParseFailed ''5'' True)))
   \<and> assemble (join_lines [''@define ADD reg=always data=address => 4'', ''add R0 5''])
     = ([BranchingToHardCodedAddress (Fin 5) 1],
        Inr (unlines (''0805;(Assembly: add R0 5)'' # replicate 63 filler)))
   \<and> map_sum id (map fst \<circ> prog_ops)
        (assemble_program ''@define foo reg=never data=none => 1'')
     = Inr [''CALL'', ''RET'', ''BZ'', ''B'', ''ADD'', ''SUB'', ''LD'', ''IN'', ''OUT'', ''AND'',
            ''WRITE'', ''FOO'', ''foo'']"
  by code_simp

subsection \<open>The countdown example\<close>

text \<open>
  C8, as the spec states it, fails: the countdown source does not assemble to five encoded
  instructions. Its four statements give four instructions and the trailing label gives none.
\<close>

theorem countdown_not_five_instructions:
  "map_sum id length (snd (assemble_instructions countdown_source)) \<noteq> Inr 5"
  by code_simp

lemma countdown_evaluated:
  "assemble countdown_source =
     ([], Inr (unlines ([''0c0a;(Assembly: :main LD R0 000 1010)'',
                         ''0a01;(Assembly: SUB R0 000 0001)'',
                         ''0404;(Assembly: BZ R0 :Finished)'',
                         ''0600;(Assembly: B :main)''] @ replicate 60 filler)))"
  by code_simp

lemma countdown_labels:
  "map_sum id length (snd (assemble_instructions countdown_source)) = Inr 4
   \<and> map_sum id prog_labels (assemble_program countdown_source)
       = Inr (Some [(''main'', 0), (''Finished'', 4)])"
  by code_simp

text \<open>
  C8, amended: the countdown source assembles, without a warning, to the four encoded
  instructions of LD, SUB, BZ and B followed by 60 filler lines \<^verbatim>\<open>0000;\<close>; the trailing label
  emits nothing, and the label map binds \<^verbatim>\<open>main\<close> to 0 and \<^verbatim>\<open>Finished\<close> to
  instruction index 4.
\<close>

theorem countdown_assembles:
  "assemble countdown_source =
     ([], Inr (unlines ([''0c0a;(Assembly: :main LD R0 000 1010)'',
                         ''0a01;(Assembly: SUB R0 000 0001)'',
                         ''0404;(Assembly: BZ R0 :Finished)'',
                         ''0600;(Assembly: B :main)''] @ replicate 60 filler)))
   \<and> map_sum id length (snd (assemble_instructions countdown_source)) = Inr 4
   \<and> map_sum id prog_labels (assemble_program countdown_source)
       = Inr (Some [(''main'', 0), (''Finished'', 4)])"
  using countdown_evaluated countdown_labels by blast

subsection \<open>Warnings and unreachable code\<close>

lemma resolve_no_jumpLabel: "\<not> has_jumpLabel s \<Longrightarrow> resolve_jumpLabel options labels s = Inr s"
  by (auto simp: has_jumpLabel_def resolve_jumpLabel_def split: option.splits)

lemma encode_statement_unreachable:
  "encode_statement line s operation w = Inr (line', w') \<Longrightarrow>
     w_unreachable w' = (op_alwaysBranches operation \<or> w_unreachable w)"
  by (auto simp: encode_statement_def split: sum.splits)

lemma validate_args_unreachable: "fst (validate_args operation s True i) = []"
  by (simp add: validate_args_def validate_data_def split: option.splits OperationData.splits)

lemma quiet_line:
  assumes "\<not> is_label_line line" and "w_unreachable w"
  shows "fst (process_line options i line w) = []
         \<and> (\<forall>line' w'. snd (process_line options i line w) = Inr (line', w') \<longrightarrow> w_unreachable w')"
proof (cases "line_item line")
  case None
  then show ?thesis using assms by (simp add: process_line_def)
next
  case (Some item)
  show ?thesis
  proof (cases item)
    case (ItemStatement s0)
    have "fst (process_statement options i line s0 w) = []"
      using assms(2) validate_args_unreachable
      by (auto simp: process_statement_def Let_def split: sum.splits option.splits prod.splits if_splits)
        (metis fst_conv)+
    moreover have "w_unreachable w'" if "snd (process_statement options i line s0 w) = Inr (line', w')"
      for line' w'
      using that assms(2)
      by (auto simp: process_statement_def Let_def dest: encode_statement_unreachable
               split: sum.splits option.splits prod.splits if_splits)
    ultimately show ?thesis using Some ItemStatement by (simp add: process_line_def)
  next
    case (ItemLabel name)
    then show ?thesis using assms Some by (simp add: is_label_line_def)
  next
    case (ItemAttribute content operation flag)
    then show ?thesis using assms Some by (simp add: process_line_def Let_def)
  qed
qed

lemma quiet_lines:
  "\<forall>line \<in> set ls. \<not> is_label_line line \<Longrightarrow> w_unreachable w \<Longrightarrow>
   fst (process_lines options i ls w) = []
   \<and> (\<forall>ls' w'. snd (process_lines options i ls w) = Inr (ls', w') \<longrightarrow> w_unreachable w')"
proof (induction ls arbitrary: i w)
  case Nil
  then show ?case by (simp add: process_lines_Nil)
next
  case (Cons line rest)
  obtain ws r where pl: "process_line options i line w = (ws, r)" by (cases "process_line options i line w")
  have q: "ws = [] \<and> (\<forall>line' w'. r = Inr (line', w') \<longrightarrow> w_unreachable w')"
    using quiet_line [of line w options i] Cons.prems pl by simp
  show ?case
  proof (cases r)
    case (Inl e)
    then show ?thesis using pl q by (simp add: process_lines_Cons)
  next
    case (Inr p)
    obtain line' w' where p: "p = (line', w')" by (cases p)
    have u: "w_unreachable w'" using q Inr p by simp
    have ih: "fst (process_lines options (Suc i) rest w') = []
       \<and> (\<forall>ls' w''. snd (process_lines options (Suc i) rest w') = Inr (ls', w'') \<longrightarrow> w_unreachable w'')"
      using Cons.IH [OF _ u] Cons.prems(1) by simp
    show ?thesis
      using pl q Inr p ih
      by (auto simp: process_lines_Cons split: prod.splits sum.splits)
  qed
qed

lemma two_branches:
  "fst (assemble (join_lines [''B 5'', ''B 6''])) = [BranchingToHardCodedAddress (Fin 5) 0]"
  by code_simp

lemma two_branches_label_between:
  "fst (assemble (join_lines [''B 5'', '':next'', ''B 6'']))
     = [BranchingToHardCodedAddress (Fin 5) 0, BranchingToHardCodedAddress (Fin 6) 2]"
  by code_simp

text \<open>
  C7, as stated, fails: a reachable statement with a literal address under data policy
  \<^verbatim>\<open>address\<close> does not always emit a warning. The register policy is checked first, so
  \<^verbatim>\<open>BZ 5\<close>, which lacks its register, ends the run with no warning at all.
\<close>

theorem branch_without_register_no_warning:
  "assemble ''BZ 5'' = ([], Inl (FailedToEmitLine 1 ''BZ 5'' MustSpecifyRegister))"
  by code_simp

text \<open>
  C7, amended. A statement that is encoded leaves the walk unreachable exactly when its
  operation always branches or the walk was unreachable before; an empty line and a directive
  emit no warning and leave the state as it is; from the unreachable state no line up to the
  next label emits a warning, whatever the lines are, and the state stays; a label line emits no
  warning and makes the walk reachable, so warnings resume. When the encoding pass reaches a
  reachable statement of a known operation with data policy \<^verbatim>\<open>address\<close>, a literal
  address and no jump label, and the statement satisfies the register policy of the operation,
  that line emits exactly one warning, for its own address and line. So \<^verbatim>\<open>B 5\<close> followed
  by \<^verbatim>\<open>B 6\<close> warns once, and with a label between them twice.
\<close>

theorem unreachable_suppression:
  "(line_item line = Some (ItemStatement s0)
      \<and> resolve_jumpLabel options (w_labels w) s0 = Inr s
      \<and> Map_get (w_ops w) (toUpperCase (st_op s)) = Some (org, operation)
      \<and> process_line options i line w = (ws, Inr (line', w'))
    \<longrightarrow> w_unreachable w' = (op_alwaysBranches operation \<or> w_unreachable w))
   \<and> ((line_item line = None \<or> line_item line = Some (ItemAttribute content definition flag))
      \<and> process_line options i line w = (ws, Inr (line', w'))
    \<longrightarrow> ws = [] \<and> w_unreachable w' = w_unreachable w)
   \<and> ((\<forall>l \<in> set ls. \<not> is_label_line l) \<and> w_unreachable w
    \<longrightarrow> fst (process_lines options i ls w) = []
        \<and> (\<forall>ls' w''. snd (process_lines options i ls w) = Inr (ls', w'') \<longrightarrow> w_unreachable w''))
   \<and> (line_item line = Some (ItemLabel name)
      \<and> process_line options i line w = (ws, Inr (line', w'))
    \<longrightarrow> ws = [] \<and> \<not> w_unreachable w')
   \<and> (validateInstructionArgs options
      \<and> line_item line = Some (ItemStatement s) \<and> \<not> has_jumpLabel s \<and> st_data s = Some d
      \<and> Map_get (w_ops w) (toUpperCase (st_op s)) = Some (org, operation)
      \<and> op_data operation = Data_address \<and> validate_reg operation s = None
      \<and> \<not> w_unreachable w
    \<longrightarrow> fst (process_line options i line w) = [BranchingToHardCodedAddress d i])
   \<and> fst (assemble (join_lines [''B 5'', ''B 6''])) = [BranchingToHardCodedAddress (Fin 5) 0]
   \<and> fst (assemble (join_lines [''B 5'', '':next'', ''B 6'']))
       = [BranchingToHardCodedAddress (Fin 5) 0, BranchingToHardCodedAddress (Fin 6) 2]"
proof (intro conjI impI)
  assume h: "line_item line = Some (ItemStatement s0)
      \<and> resolve_jumpLabel options (w_labels w) s0 = Inr s
      \<and> Map_get (w_ops w) (toUpperCase (st_op s)) = Some (org, operation)
      \<and> process_line options i line w = (ws, Inr (line', w'))"
  then have "encode_statement line s operation w = Inr (line', w')"
    by (auto simp: process_line_def process_statement_def Let_def
             split: option.splits prod.splits if_splits)
  then show "w_unreachable w' = (op_alwaysBranches operation \<or> w_unreachable w)"
    by (rule encode_statement_unreachable)
next
  assume h: "(line_item line = None \<or> line_item line = Some (ItemAttribute content definition flag))
      \<and> process_line options i line w = (ws, Inr (line', w'))"
  then show "ws = []" and "w_unreachable w' = w_unreachable w"
    by (auto simp: process_line_def Let_def)
next
  assume "(\<forall>l \<in> set ls. \<not> is_label_line l) \<and> w_unreachable w"
  then show "fst (process_lines options i ls w) = []"
    and "\<forall>ls' w''. snd (process_lines options i ls w) = Inr (ls', w'') \<longrightarrow> w_unreachable w''"
    using quiet_lines [of ls w options i] by blast+
next
  assume h: "line_item line = Some (ItemLabel name)
      \<and> process_line options i line w = (ws, Inr (line', w'))"
  then show "ws = []" and "\<not> w_unreachable w'"
    by (auto simp: process_line_def split: if_splits option.splits)
next
  assume h: "validateInstructionArgs options
      \<and> line_item line = Some (ItemStatement s) \<and> \<not> has_jumpLabel s \<and> st_data s = Some d
      \<and> Map_get (w_ops w) (toUpperCase (st_op s)) = Some (org, operation)
      \<and> op_data operation = Data_address \<and> validate_reg operation s = None
      \<and> \<not> w_unreachable w"
  then show "fst (process_line options i line w) = [BranchingToHardCodedAddress d i]"
    by (simp add: process_line_def process_statement_def resolve_no_jumpLabel
          validate_args_def validate_data_def split: option.splits)
next
  show "fst (assemble (join_lines [''B 5'', ''B 6''])) = [BranchingToHardCodedAddress (Fin 5) 0]"
    by (rule two_branches)
  show "fst (assemble (join_lines [''B 5'', '':next'', ''B 6'']))
       = [BranchingToHardCodedAddress (Fin 5) 0, BranchingToHardCodedAddress (Fin 6) 2]"
    by (rule two_branches_label_between)
qed

theorem unreachable_suppression_witness:
  "validateInstructionArgs encoding_pass
   \<and> line_item (statement_line ''B 6'' (branch_to 6)) = Some (ItemStatement (branch_to 6))
   \<and> \<not> has_jumpLabel (branch_to 6) \<and> st_data (branch_to 6) = Some (Fin 6)
   \<and> Map_get (w_ops (start_walk [])) (toUpperCase (st_op (branch_to 6)))
       = Some (DefaultInstance, defaultOps ! 3)
   \<and> op_data (defaultOps ! 3) = Data_address \<and> validate_reg (defaultOps ! 3) (branch_to 6) = None
   \<and> \<not> w_unreachable (start_walk [])
   \<and> fst (process_line encoding_pass 1 (statement_line ''B 6'' (branch_to 6)) (start_walk []))
       = [BranchingToHardCodedAddress (Fin 6) 1]
   \<and> is_label_line (statement_line ''B 6'' (branch_to 6)) = False
   \<and> w_unreachable ((start_walk [])\<lparr>w_unreachable := True\<rparr>)
   \<and> fst (process_lines encoding_pass 1 [statement_line ''B 6'' (branch_to 6)]
            ((start_walk [])\<lparr>w_unreachable := True\<rparr>)) = []"
proof -
  have h: "validateInstructionArgs encoding_pass
   \<and> line_item (statement_line ''B 6'' (branch_to 6)) = Some (ItemStatement (branch_to 6))
   \<and> \<not> has_jumpLabel (branch_to 6) \<and> st_data (branch_to 6) = Some (Fin 6)
   \<and> Map_get (w_ops (start_walk [])) (toUpperCase (st_op (branch_to 6)))
       = Some (DefaultInstance, defaultOps ! 3)
   \<and> op_data (defaultOps ! 3) = Data_address \<and> validate_reg (defaultOps ! 3) (branch_to 6) = None
   \<and> \<not> w_unreachable (start_walk [])"
    by code_simp
  have g: "(\<forall>l \<in> set [statement_line ''B 6'' (branch_to 6)]. \<not> is_label_line l)
           \<and> w_unreachable ((start_walk [])\<lparr>w_unreachable := True\<rparr>)"
    by (simp add: is_label_line_def statement_line_def)
  note t = unreachable_suppression
    [where options = encoding_pass and line = "statement_line ''B 6'' (branch_to 6)"
       and s = "branch_to 6" and d = "Fin 6" and w = "start_walk []" and org = DefaultInstance
       and operation = "defaultOps ! 3" and i = 1]
  note t' = unreachable_suppression
    [where options = encoding_pass and ls = "[statement_line ''B 6'' (branch_to 6)]"
       and w = "(start_walk [])\<lparr>w_unreachable := True\<rparr>" and i = 1]
  have a: "fst (process_line encoding_pass 1 (statement_line ''B 6'' (branch_to 6)) (start_walk []))
       = [BranchingToHardCodedAddress (Fin 6) 1]"
    using t h by blast
  have b: "fst (process_lines encoding_pass 1 [statement_line ''B 6'' (branch_to 6)]
            ((start_walk [])\<lparr>w_unreachable := True\<rparr>)) = []"
    using t' g by blast
  show ?thesis using h g a b by simp
qed

subsection \<open>The contract of a statement\<close>



subsection \<open>Building the words of a statement\<close>

lemma emit_outputs_map:
  "emit_outputs outs s c = Inr insts \<Longrightarrow>
   insts = map (\<lambda>out. \<lparr>inst_opcode = out_opcode out, inst_r1 = output_register out s,
                          inst_data = output_data out s, inst_comment = c\<rparr>) outs"
proof (induction outs arbitrary: insts)
  case Nil
  then show ?case by simp
next
  case (Cons out outs)
  then show ?case
    by (auto simp: new_Instruction_def split: sum.splits if_splits)
qed






subsection \<open>Bit widths\<close>





subsection \<open>Negative data\<close>

lemma bit31_mod: "bit (k::int) 31 \<longleftrightarrow> 2147483648 \<le> k mod 4294967296"
proof -
  have m: "k mod 4294967296 = 2147483648 * (k div 2147483648 mod 2) + k mod 2147483648"
    using zmod_zmult2_eq [where a = k and b = 2147483648 and c = 2] by simp
  have r: "0 \<le> k mod 2147483648 \<and> k mod 2147483648 < 2147483648" by simp
  show ?thesis
  proof (cases "odd (k div 2147483648)")
    case True
    then have "k div 2147483648 mod 2 = 1" by presburger
    then show ?thesis using m r True by (simp add: bit_iff_odd)
  next
    case False
    then have "k div 2147483648 mod 2 = 0" by presburger
    then show ?thesis using m r False by (simp add: bit_iff_odd)
  qed
qed

lemma ToInt32_sign:
  "sint (ToInt32 (Fin q)) < 0
   \<longleftrightarrow> 2147483648 \<le> (if q < 0 then \<lceil>q\<rceil> else \<lfloor>q\<rfloor>) mod 4294967296"
  by (simp add: sint_neg_iff ToInt32_def bit_word_of_int_iff bit31_mod)

lemma negative_data_not_ok:
  "sint (ToInt32 (inst_data inst)) < 0 \<Longrightarrow> \<not> line_ok (Instruction_toString inst)"
  by (intro negative_word_not_ok inst_word_negative) (simp add: sint_neg_iff)

lemma emit_outputs_negative:
  assumes "st_data s = Some (Fin q)" and "q < 0"
    and "list_all (\<lambda>out. \<not> js_gt (out_opcode out) 15) outs"
  shows "\<exists>insts. emit_outputs outs s c = Inr insts"
  using assms(3)
proof (induction outs)
  case Nil
  then show ?case by simp
next
  case (Cons out outs)
  have "\<not> js_gt (output_data out s) 127"
    using assms(1,2) by (simp add: output_data_def js_gt_def)
  then show ?case using Cons by (auto simp: new_Instruction_def)
qed

lemma branch_minus_five:
  "assemble ''B -5''
     = ([BranchingToHardCodedAddress (Fin (- 5)) 0],
        Inr (unlines (''00-5;(Assembly: B -5)'' # replicate 63 filler)))"
  by code_simp

text \<open>
  C10, as stated, fails: a numeric literal that parses to a negative number can give a word of
  four lowercase hex digits. The operand \<^verbatim>\<open>-4294967296\<close> passes the checks and its
  32-bit value is 0, so \<^verbatim>\<open>B -4294967296\<close> is encoded as \<^verbatim>\<open>0600\<close>.
\<close>

theorem negative_literal_four_hex_digits:
  "assemble ''B -4294967296''
     = ([BranchingToHardCodedAddress (Fin (- 4294967296)) 0],
        Inr (unlines (''0600;(Assembly: B -4294967296)'' # replicate 63 filler)))
   \<and> line_ok ''0600;(Assembly: B -4294967296)''"
  by code_simp

text \<open>
  C10, amended. The constructor checks upper bounds only: it accepts every data value not
  above 127 with every opcode not above 15, negative ones included. So for a statement whose
  data is a negative number, every word of its operation is built without a bit-width error
  as long as no output opcode is above 15. Among the words that are built, each one of an
  output that takes the data field, when the 32-bit value of the data (truncation toward zero,
  then modulo \<open>2\<^sup>3\<^sup>2\<close>, read as signed) is negative, carries the data unchanged and is
  serialized as a line that does not start with four lowercase hex digits and a semicolon. The
  32-bit value of \<open>q\<close> is negative exactly when the truncation of \<open>q\<close> modulo \<open>2\<^sup>3\<^sup>2\<close> is
  at least \<open>2\<^sup>3\<^sup>1\<close>, which holds for every \<open>q\<close> from \<open>-2147483649\<close> (excluded) to \<open>-1\<close>.
  An output marked \<^verbatim>\<open>no-data\<close> and an operation without outputs give no such word. The
  line \<^verbatim>\<open>B -5\<close> assembles, with its warning, to \<^verbatim>\<open>00-5;\<close>.
\<close>

theorem negative_data_not_checked:
  "(\<not> js_gt d 127 \<and> \<not> js_gt opc 15 \<longrightarrow>
      new_Instruction opc r d c
        = Inr \<lparr>inst_opcode = opc, inst_r1 = r, inst_data = d, inst_comment = c\<rparr>)
   \<and> (st_data s = Some (Fin q) \<and> q < 0 \<and> list_all (\<lambda>out. \<not> js_gt (out_opcode out) 15) outs \<longrightarrow>
        (\<exists>insts. emit_outputs outs s c = Inr insts))
   \<and> (emit_outputs outs s c = Inr insts \<and> st_data s = Some d \<and> sint (ToInt32 d) < 0
        \<and> k < length outs \<and> out_useData (outs ! k) \<longrightarrow>
        k < length insts \<and> inst_data (insts ! k) = d
        \<and> \<not> line_ok (Instruction_toString (insts ! k)))
   \<and> (sint (ToInt32 (Fin q)) < 0
        \<longleftrightarrow> 2147483648 \<le> (if q < 0 then \<lceil>q\<rceil> else \<lfloor>q\<rfloor>) mod 4294967296)
   \<and> (- 2147483649 < q \<and> q \<le> - 1 \<longrightarrow> sint (ToInt32 (Fin q)) < 0)
   \<and> assemble ''B -5''
       = ([BranchingToHardCodedAddress (Fin (- 5)) 0],
          Inr (unlines (''00-5;(Assembly: B -5)'' # replicate 63 filler)))"
proof (intro conjI impI)
  show "new_Instruction opc r d c
        = Inr \<lparr>inst_opcode = opc, inst_r1 = r, inst_data = d, inst_comment = c\<rparr>"
    if "\<not> js_gt d 127 \<and> \<not> js_gt opc 15"
    using that by (simp add: new_Instruction_def)
  show "\<exists>insts. emit_outputs outs s c = Inr insts"
    if "st_data s = Some (Fin q) \<and> q < 0 \<and> list_all (\<lambda>out. \<not> js_gt (out_opcode out) 15) outs"
    using that emit_outputs_negative by blast
  show "k < length insts" and "inst_data (insts ! k) = d"
    and "\<not> line_ok (Instruction_toString (insts ! k))"
    if h: "emit_outputs outs s c = Inr insts \<and> st_data s = Some d \<and> sint (ToInt32 d) < 0
        \<and> k < length outs \<and> out_useData (outs ! k)"
  proof -
    have m: "insts = map (\<lambda>out. \<lparr>inst_opcode = out_opcode out, inst_r1 = output_register out s,
                               inst_data = output_data out s, inst_comment = c\<rparr>) outs"
      using h emit_outputs_map by blast
    show k: "k < length insts" using h m by simp
    show d: "inst_data (insts ! k) = d" using h m by (simp add: output_data_def)
    show "\<not> line_ok (Instruction_toString (insts ! k))"
      using h d by (intro negative_data_not_ok) simp
  qed
  show "sint (ToInt32 (Fin q)) < 0
        \<longleftrightarrow> 2147483648 \<le> (if q < 0 then \<lceil>q\<rceil> else \<lfloor>q\<rfloor>) mod 4294967296"
    by (rule ToInt32_sign)
  show "sint (ToInt32 (Fin q)) < 0" if "- 2147483649 < q \<and> q \<le> - 1"
    using that ToInt32_negative [of q] by (simp add: sint_neg_iff)
  show "assemble ''B -5''
       = ([BranchingToHardCodedAddress (Fin (- 5)) 0],
          Inr (unlines (''00-5;(Assembly: B -5)'' # replicate 63 filler)))"
    by (rule branch_minus_five)
qed

theorem negative_data_not_checked_witness:
  "emit_outputs (op_output (defaultOps ! 3)) (branch_to (- 5)) ''(Assembly: B -5)''
     = Inr [\<lparr>inst_opcode = Fin 3, inst_r1 = False, inst_data = Fin (- 5),
             inst_comment = ''(Assembly: B -5)''\<rparr>]
   \<and> st_data (branch_to (- 5)) = Some (Fin (- 5)) \<and> sint (ToInt32 (Fin (- 5))) < 0
   \<and> (0 :: nat) < length (op_output (defaultOps ! 3)) \<and> out_useData (op_output (defaultOps ! 3) ! 0)
   \<and> \<not> line_ok (Instruction_toString
         \<lparr>inst_opcode = Fin 3, inst_r1 = False, inst_data = Fin (- 5),
          inst_comment = ''(Assembly: B -5)''\<rparr>)"
proof -
  let ?i = "\<lparr>inst_opcode = Fin 3, inst_r1 = False, inst_data = Fin (- 5),
             inst_comment = ''(Assembly: B -5)''\<rparr>"
  have h: "emit_outputs (op_output (defaultOps ! 3)) (branch_to (- 5)) ''(Assembly: B -5)'' = Inr [?i]
   \<and> st_data (branch_to (- 5)) = Some (Fin (- 5)) \<and> sint (ToInt32 (Fin (- 5))) < 0
   \<and> (0 :: nat) < length (op_output (defaultOps ! 3)) \<and> out_useData (op_output (defaultOps ! 3) ! 0)"
    by code_simp
  from negative_data_not_checked
    [where outs = "op_output (defaultOps ! 3)" and s = "branch_to (- 5)"
       and c = "''(Assembly: B -5)''" and insts = "[?i]" and d = "Fin (- 5)" and k = 0]
  have "\<not> line_ok (Instruction_toString ([?i] ! 0))" using h by blast
  then show ?thesis using h by simp
qed

subsection \<open>The image\<close>

lemma burst_evaluated:
  "assemble (join_lines burst_lines)
     = ([], Inr (unlines (replicate 65 ''0000;(Assembly: BURST)'')))"
  by code_simp

lemma burst_count:
  "length (text_lines (unlines (replicate 65 ''0000;(Assembly: BURST)''))) = 65"
  by code_simp

lemma hex_of_int_long: "65536 \<le> n \<Longrightarrow> 5 \<le> length (hex_of_int n)"
proof -
  assume a: "65536 \<le> n"
  have l1: "1 \<le> length (hex_of_int k)" for k
    using hex_of_int_nonempty [of k] by (cases "hex_of_int k") simp_all
  have l2: "2 \<le> length (hex_of_int k)" if "16 \<le> k" for k
    using that l1 [of "k div 16"] by (subst hex_of_int.simps) simp
  have l3: "3 \<le> length (hex_of_int k)" if "256 \<le> k" for k
    using that l2 [of "k div 16"] by (subst hex_of_int.simps) simp
  have l4: "4 \<le> length (hex_of_int k)" if "4096 \<le> k" for k
    using that l3 [of "k div 16"] by (subst hex_of_int.simps) simp
  show ?thesis using a l4 [of "n div 16"] by (subst hex_of_int.simps) simp
qed

lemma ne_of_mem: "x \<in> A \<Longrightarrow> y \<notin> A \<Longrightarrow> x \<noteq> y"
  by blast

lemma not_conj4: "\<not> C \<Longrightarrow> \<not> (A \<and> B \<and> C \<and> D)"
  by blast

lemma long_word_not_ok:
  assumes "65536 \<le> inst_word inst"
  shows "\<not> line_ok (Instruction_toString inst)"
proof -
  let ?h = "hex_of_int (inst_word inst)"
  have l: "5 \<le> length ?h" using assms by (rule hex_of_int_long)
  have s: "Instruction_toString inst = ?h @ CHR '';'' # inst_comment inst"
    using assms l by (simp add: Instruction_toString_def toString16_def padStart_def)
  have e: "Instruction_toString inst ! 4 = ?h ! 4" using l s by (simp add: nth_append)
  have m: "?h ! 4 \<in> set ?h" using l by (intro nth_mem) simp
  have "set ?h \<subseteq> set ''0123456789abcdef''" by (rule hex_of_int_chars)
  then have "?h ! 4 \<in> set ''0123456789abcdef''" using m by (rule subsetD)
  moreover have "CHR '';'' \<notin> set ''0123456789abcdef''" by simp
  ultimately have "?h ! 4 \<noteq> CHR '';''" by (rule ne_of_mem)
  then have "Instruction_toString inst ! 4 \<noteq> CHR '';''" unfolding e .
  then show ?thesis unfolding line_ok_def by (rule not_conj4)
qed

lemma word_line_ok:
  assumes "one_line (inst_comment inst)" and "0 \<le> inst_word inst" and "inst_word inst < 65536"
  shows "line_ok (Instruction_toString inst)"
proof -
  let ?h = "padStart 4 CHR ''0'' (toString16 (inst_word inst))"
  have h: "length ?h = 4 \<and> set ?h \<subseteq> set ''0123456789abcdef''"
    using assms(2,3) by (rule padded_hex)
  have s: "Instruction_toString inst = ?h @ CHR '';'' # inst_comment inst"
    by (simp add: Instruction_toString_def)
  have "take 4 (Instruction_toString inst) = ?h" using h s by simp
  moreover have "Instruction_toString inst ! 4 = CHR '';''" using h s by (simp add: nth_append)
  moreover have "drop 5 (Instruction_toString inst) = inst_comment inst" using h s by simp
  moreover have "5 \<le> length (Instruction_toString inst)" using h s by simp
  moreover have "list_all (\<lambda>c. c \<in> set ''0123456789abcdef'') ?h"
    using h unfolding list_all_iff by blast
  ultimately show ?thesis using assms(1) unfolding line_ok_def by presburger
qed

lemma line_ok_iff:
  assumes "one_line (inst_comment inst)"
  shows "line_ok (Instruction_toString inst) \<longleftrightarrow> 0 \<le> inst_word inst \<and> inst_word inst < 65536"
proof
  assume ok: "line_ok (Instruction_toString inst)"
  have "\<not> inst_word inst < 0" using ok negative_word_not_ok [of inst] by (rule contrapos_pn)
  moreover have "\<not> 65536 \<le> inst_word inst" using ok long_word_not_ok [of inst] by (rule contrapos_pn)
  ultimately show "0 \<le> inst_word inst \<and> inst_word inst < 65536" by (simp add: not_le not_less)
next
  assume "0 \<le> inst_word inst \<and> inst_word inst < 65536"
  then show "line_ok (Instruction_toString inst)" using assms word_line_ok [of inst] by (simp only:)
qed

lemma assemble_succeeds:
  assumes "assemble content = (ws, Inr out)"
  shows "\<exists>insts. assemble_instructions content = (ws, Inr insts) \<and> out = emit_text insts
                 \<and> list_all inst_ok insts"
proof -
  obtain insts where i: "assemble_instructions content = (ws, Inr insts)" and o: "out = emit_text insts"
    using assms unfolding assemble_via_instructions
    by (auto split: prod.splits sum.splits)
  then show ?thesis using assemble_instructions_ok by blast
qed

lemma max_lines: "length (map f insts @ replicate (64 - length insts) x) = max (length insts) 64"
  by simp

text \<open>
  C1, as stated, fails: the image of a run that succeeds can have more than 64 lines. An
  operation defined with 65 outputs, used once, gives an image of 65 lines.
\<close>

theorem more_than_64_lines:
  "map_sum id (length \<circ> text_lines) (snd (assemble (join_lines burst_lines))) = Inr 65"
  by (simp only: burst_evaluated snd_conv map_sum.simps comp_apply burst_count)

text \<open>
  C1, amended. When \<^verbatim>\<open>assemble\<close> succeeds, the image is one line for each emitted
  instruction, followed by filler lines \<^verbatim>\<open>0000;\<close> up to 64 lines: it has
  \<open>max n 64\<close> lines for \<open>n\<close> instructions, so exactly 64 when there are at most 64
  instructions. The comment of each instruction has no line terminator. The line of an
  instruction matches \<^verbatim>\<open>^[0-9a-f]{4};.*$\<close> exactly when the word of the instruction is
  from 0 to 65535, which is the case when neither its opcode nor its data is negative. Every
  position after the last instruction holds the filler line, which matches as well.
\<close>

theorem image_format:
  assumes "assemble content = (ws, Inr out)"
  shows "\<exists>insts. assemble_instructions content = (ws, Inr insts)
           \<and> text_lines out = map Instruction_toString insts @ replicate (64 - length insts) filler
           \<and> length (text_lines out) = max (length insts) 64
           \<and> (length insts \<le> 64 \<longrightarrow> length (text_lines out) = 64)
           \<and> (\<forall>k < length insts.
                 one_line (inst_comment (insts ! k))
                 \<and> (line_ok (text_lines out ! k)
                      \<longleftrightarrow> 0 \<le> inst_word (insts ! k) \<and> inst_word (insts ! k) < 65536)
                 \<and> (inst_nonneg (insts ! k) \<longrightarrow> line_ok (text_lines out ! k)))
           \<and> (\<forall>k. length insts \<le> k \<and> k < length (text_lines out) \<longrightarrow> text_lines out ! k = filler)
           \<and> line_ok filler"
proof -
  obtain insts where i: "assemble_instructions content = (ws, Inr insts)"
    and o: "out = emit_text insts" and ok: "list_all inst_ok insts"
    using assemble_succeeds [OF assms] by blast
  have t: "text_lines out = map Instruction_toString insts @ replicate (64 - length insts) filler"
    unfolding o using ok by (rule emit_text_lines)
  have n: "length (text_lines out) = max (length insts) 64" unfolding t by (rule max_lines)
  have a: "one_line (inst_comment (insts ! k))
           \<and> (line_ok (text_lines out ! k)
                \<longleftrightarrow> 0 \<le> inst_word (insts ! k) \<and> inst_word (insts ! k) < 65536)
           \<and> (inst_nonneg (insts ! k) \<longrightarrow> line_ok (text_lines out ! k))" if "k < length insts" for k
  proof -
    have k: "inst_ok (insts ! k)" using ok that by (simp add: list_all_length)
    then have c: "one_line (inst_comment (insts ! k))" by (simp add: inst_ok_def)
    have e: "text_lines out ! k = Instruction_toString (insts ! k)"
      using that by (simp add: t nth_append)
    show ?thesis
      unfolding e using c line_ok_iff [OF c] Instruction_toString_ok [OF k] by blast
  qed
  have b: "text_lines out ! k = filler" if "length insts \<le> k \<and> k < length (text_lines out)" for k
  proof -
    have "k - length insts < 64 - length insts" using that unfolding n by auto
    then have "replicate (64 - length insts) filler ! (k - length insts) = filler"
      by (rule nth_replicate)
    then show ?thesis using that by (simp add: t nth_append)
  qed
  have c: "line_ok filler" by (simp add: line_ok_def filler_def one_line_def)
  show ?thesis using i t n a b c by (intro exI [of _ insts]) auto
qed

theorem image_format_witness:
  "assemble countdown_source =
     ([], Inr (unlines ([''0c0a;(Assembly: :main LD R0 000 1010)'',
                         ''0a01;(Assembly: SUB R0 000 0001)'',
                         ''0404;(Assembly: BZ R0 :Finished)'',
                         ''0600;(Assembly: B :main)''] @ replicate 60 filler)))
   \<and> length (text_lines (unlines ([''0c0a;(Assembly: :main LD R0 000 1010)'',
                         ''0a01;(Assembly: SUB R0 000 0001)'',
                         ''0404;(Assembly: BZ R0 :Finished)'',
                         ''0600;(Assembly: B :main)''] @ replicate 60 filler))) = 64"
proof -
  let ?out = "unlines ([''0c0a;(Assembly: :main LD R0 000 1010)'',
                         ''0a01;(Assembly: SUB R0 000 0001)'',
                         ''0404;(Assembly: BZ R0 :Finished)'',
                         ''0600;(Assembly: B :main)''] @ replicate 60 filler)"
  obtain insts where i: "assemble_instructions countdown_source = ([], Inr insts)"
    and n: "length (text_lines ?out) = max (length insts) 64"
    using image_format [OF countdown_evaluated] by blast
  have "length insts = 4" using i countdown_labels by simp
  then have "max (length insts) 64 = 64" by simp
  then have "length (text_lines ?out) = 64" using n by (rule subst)
  with countdown_evaluated show ?thesis by (rule conjI)
qed

end
